theory Spec2Isabelle
  imports Complex_Main "HOL-Library.Sublist"
begin

section \<open>Data model (types/index.ts)\<close>

text \<open>
  The orchestration engine of the repository, embedded as state-passing functions.
  The records follow the TypeScript interfaces. Optional fields are \<open>option\<close>s.
  The \<open>timestamp\<close> of a \<open>ProviderResponse\<close> and the \<open>id\<close> and \<open>timestamp\<close> of a
  stored message come from the clock and the UUID generator and are left out; no
  function of the engine reads them.
\<close>

datatype Role = User | Assistant | System

record ContextMessage =
  cm_role :: Role
  cm_content :: string

text \<open>
  The options object handed to the provider. The engine builds it either as
  \<open>{...request.options, model}\<close> or as \<open>{temperature: 0.3, model: ...}\<close>, so these
  four keys are the ones that can be present.
\<close>

record CompletionOptions =
  opt_model :: "string option"
  opt_temperature :: "real option"
  opt_maxRounds :: "int option"
  opt_includeReasoning :: "bool option"

record OrchestrationOptions =
  maxRounds :: "int option"
  temperature :: "real option"
  includeReasoning :: "bool option"

text \<open>
  \<open>strategy\<close> is the enum's string value; at run time any string can arrive, which
  is what the \<open>default\<close> branch of \<open>orchestrate\<close> is for. \<open>maxRounds\<close> is a
  number; its integer values are modelled. A temperature is the real that its decimal
  literal denotes.
\<close>

record OrchestrationRequest =
  prompt :: string
  strategy :: string
  models :: "string list option"
  options :: "OrchestrationOptions option"
  useContext :: "bool option"

record ProviderResponse =
  pr_model :: string
  pr_response :: string

record DebateRound =
  dr_round :: int
  dr_responses :: "ProviderResponse list"

record OrchestrationResult =
  res_strategy :: string
  res_models :: "string list"
  res_responses :: "ProviderResponse list option"
  res_rounds :: "DebateRound list option"
  res_synthesis :: "string option"
  res_consensus :: "string option"
  res_conclusion :: "string option"
  res_conversationId :: "string option"

definition Sequential :: string where "Sequential = ''sequential''"
definition Parallel :: string where "Parallel = ''parallel''"
definition Debate :: string where "Debate = ''debate''"
definition Consensus :: string where "Consensus = ''consensus''"
definition Specialist :: string where "Specialist = ''specialist''"

text \<open>The ids of \<open>PROGRAMMING_MODELS\<close>, in the order of the table.\<close>

definition defaultModels :: "string list" where
  "defaultModels =
    [''deepseek/deepseek-v3'', ''deepseek/deepseek-r1-0528'', ''anthropic/claude-sonnet-4'',
     ''google/gemini-2.5-pro'', ''google/gemini-2.5-flash'', ''x-ai/grok-3-beta'',
     ''openai/gpt-4.1'', ''meta-llama/llama-4-maverick'',
     ''qwen/qwen-2.5-coder-32b-instruct'', ''mistralai/codestral-2501'']"

datatype error =
    ProviderError string
  | StrategyError string
  | TypeError string

section \<open>The Context Store (db/context-manager.ts)\<close>

datatype MetaValue = MStr string | MNum int

text \<open>The argument of \<open>addMessage\<close>, and a row of the \<open>messages\<close> table.\<close>

record MessageInput =
  in_role :: Role
  in_content :: string
  in_model :: "string option"
  in_metadata :: "(string \<times> MetaValue) list option"

record Message =
  msg_conversationId :: string
  msg_role :: Role
  msg_content :: string
  msg_model :: "string option"
  msg_metadata :: "(string \<times> MetaValue) list option"

text \<open>
  \<open>rows\<close> is the \<open>messages\<close> table in insertion order (the order of the column
  \<open>timestamp\<close>), \<open>cache\<close> the Redis lists, by conversation id (an absent key is the
  empty list). The expiry of a cache key is real time and not modelled: the theorems
  hold for every state of the cache.
\<close>

record ContextStore =
  currentConversationId :: string
  rows :: "Message list"
  cache :: "string \<Rightarrow> Message list"

text \<open>
  The row that the \<open>INSERT\<close> of \<open>addMessage\<close> returns. \<open>message.model || null\<close>
  turns an empty model id into \<open>null\<close>.
\<close>

definition savedRow :: "string \<Rightarrow> MessageInput \<Rightarrow> Message" where
  "savedRow convId message =
    \<lparr>msg_conversationId = convId,
     msg_role = in_role message,
     msg_content = in_content message,
     msg_model = (if in_model message = Some [] then None else in_model message),
     msg_metadata = in_metadata message\<rparr>"

text \<open>
  \<open>addMessage\<close>: insert the row, push it on the cache list of the current
  conversation. The constructor sets \<open>currentConversationId\<close> to a UUID and every
  later assignment is a UUID too, so the guard \<open>!this.currentConversationId\<close> is never
  taken and is left out. The queries on the database and the cache are taken to
  succeed; a storage failure is not modelled.
\<close>

definition addMessage :: "MessageInput \<Rightarrow> ContextStore \<Rightarrow> ContextStore" where
  "addMessage message s =
    (let savedMessage = savedRow (currentConversationId s) message;
         cacheKey = currentConversationId s
     in s\<lparr>rows := rows s @ [savedMessage],
           cache := (cache s)(cacheKey := cache s cacheKey @ [savedMessage])\<rparr>)"

text \<open>
  \<open>getConversationHistory()\<close> with its defaults: the cached list when it is not
  empty, otherwise the first 50 rows of the conversation, which are then cached.
\<close>

definition getConversationHistory :: "ContextStore \<Rightarrow> Message list \<times> ContextStore" where
  "getConversationHistory s =
    (let convId = currentConversationId s;
         cached = cache s convId
     in if cached \<noteq> [] then (cached, s)
        else
          (let result = take 50 (filter (\<lambda>m. msg_conversationId m = convId) (rows s))
           in if result \<noteq> []
              then (result, s\<lparr>cache := (cache s)(convId := result)\<rparr>)
              else (result, s)))"

text \<open>Of \<open>getSummary()\<close> the engine reads \<open>currentConversationId\<close> only.\<close>

definition getSummary :: "ContextStore \<Rightarrow> string" where
  "getSummary s = currentConversationId s"

section \<open>The world: store, provider, trace\<close>

text \<open>
  The completion provider is an external service. It is a parameter \<open>P\<close> of the model:
  a function from the trace so far and the call to either an error message or the text.
  Every provider call and every \<open>addMessage\<close> is recorded in \<open>events\<close>, in the order
  in which the engine issues them, which is what a test double would observe.
\<close>

datatype ProviderCall =
    Complete string CompletionOptions
  | CompleteWithContext "ContextMessage list" CompletionOptions

datatype Event =
    ProviderCalled ProviderCall
  | MessageAdded MessageInput

record World =
  store :: ContextStore
  events :: "Event list"

type_synonym Provider = "Event list \<Rightarrow> ProviderCall \<Rightarrow> string + string"

definition provider_call :: "Provider \<Rightarrow> ProviderCall \<Rightarrow> World \<Rightarrow> (error + string) \<times> World" where
  "provider_call P c w =
    ((case P (events w) c of Inl e \<Rightarrow> Inl (ProviderError e) | Inr t \<Rightarrow> Inr t),
     w\<lparr>events := events w @ [ProviderCalled c]\<rparr>)"

definition provider_complete ::
  "Provider \<Rightarrow> string \<Rightarrow> CompletionOptions \<Rightarrow> World \<Rightarrow> (error + string) \<times> World" where
  "provider_complete P p opts w = provider_call P (Complete p opts) w"

definition provider_completeWithContext ::
  "Provider \<Rightarrow> ContextMessage list \<Rightarrow> CompletionOptions \<Rightarrow> World \<Rightarrow> (error + string) \<times> World" where
  "provider_completeWithContext P messages opts w = provider_call P (CompleteWithContext messages opts) w"

definition contextManager_addMessage :: "MessageInput \<Rightarrow> World \<Rightarrow> World" where
  "contextManager_addMessage message w =
    w\<lparr>store := addMessage message (store w), events := events w @ [MessageAdded message]\<rparr>"

definition contextManager_getConversationHistory :: "World \<Rightarrow> Message list \<times> World" where
  "contextManager_getConversationHistory w =
    (let (history, s) = getConversationHistory (store w) in (history, w\<lparr>store := s\<rparr>))"

section \<open>String helpers\<close>

fun join :: "string \<Rightarrow> string list \<Rightarrow> string" where
  "join sep [] = []"
| "join sep [x] = x"
| "join sep (x # y # ys) = x @ sep @ join sep (y # ys)"

definition digit :: "nat \<Rightarrow> char" where
  "digit n = char_of (48 + n)"

fun showNat :: "nat \<Rightarrow> string" where
  "showNat n = (if n < 10 then [digit n] else showNat (n div 10) @ [digit (n mod 10)])"

declare showNat.simps [simp del]

definition showInt :: "int \<Rightarrow> string" where
  "showInt i = (if i < 0 then CHR ''-'' # showNat (nat (- i)) else showNat (nat i))"

section \<open>The engine (orchestrator/engine.ts)\<close>

definition userMessage :: "string \<Rightarrow> ContextMessage" where
  "userMessage c = \<lparr>cm_role = User, cm_content = c\<rparr>"

definition toContextMessage :: "Message \<Rightarrow> ContextMessage" where
  "toContextMessage msg = \<lparr>cm_role = msg_role msg, cm_content = msg_content msg\<rparr>"

text \<open>\<open>{...request.options, model}\<close>\<close>

definition withModel :: "OrchestrationRequest \<Rightarrow> string \<Rightarrow> CompletionOptions" where
  "withModel req m =
    (case options req of
       None \<Rightarrow> \<lparr>opt_model = Some m, opt_temperature = None, opt_maxRounds = None,
                opt_includeReasoning = None\<rparr>
     | Some opts \<Rightarrow> \<lparr>opt_model = Some m, opt_temperature = temperature opts,
                opt_maxRounds = maxRounds opts, opt_includeReasoning = includeReasoning opts\<rparr>)"

text \<open>\<open>{temperature: 0.3, model: m}\<close>, the options of the engine's own calls.\<close>

definition fixedModel :: "string \<Rightarrow> CompletionOptions" where
  "fixedModel m =
    \<lparr>opt_model = Some m, opt_temperature = Some (3 / 10), opt_maxRounds = None,
     opt_includeReasoning = None\<rparr>"

text \<open>\<open>request.useContext !== false\<close>\<close>

definition usesContext :: "OrchestrationRequest \<Rightarrow> bool" where
  "usesContext req = (useContext req \<noteq> Some False)"

subsection \<open>Sequential\<close>

definition refinementPrompt :: "string \<Rightarrow> string \<Rightarrow> string \<Rightarrow> string" where
  "refinementPrompt original m response =
    ''Original prompt: '' @ original @ ''\<newline>\<newline>Previous '' @ m @ '' response:\<newline>'' @ response
    @ ''\<newline>\<newline>Please improve, refine, or add to this response.''"

fun sequentialLoop ::
  "Provider \<Rightarrow> OrchestrationRequest \<Rightarrow> Message list \<Rightarrow> string list \<Rightarrow> string \<Rightarrow>
   ProviderResponse list \<Rightarrow> World \<Rightarrow> (error + ProviderResponse list) \<times> World" where
  "sequentialLoop P req history [] currentPrompt responses w = (Inr responses, w)"
| "sequentialLoop P req history (m # rest) currentPrompt responses w =
    (let messages = map toContextMessage history @ [userMessage currentPrompt]
     in case provider_completeWithContext P messages (withModel req m) w of
          (Inl e, w1) \<Rightarrow> (Inl e, w1)
        | (Inr response, w1) \<Rightarrow>
            (let responses' = responses @ [\<lparr>pr_model = m, pr_response = response\<rparr>];
                 w2 = (if usesContext req
                       then contextManager_addMessage
                              \<lparr>in_role = Assistant, in_content = response, in_model = Some m,
                               in_metadata = None\<rparr> w1
                       else w1)
             in sequentialLoop P req history rest
                  (refinementPrompt (prompt req) m response) responses' w2))"

definition readHistory :: "OrchestrationRequest \<Rightarrow> World \<Rightarrow> Message list \<times> World" where
  "readHistory req w =
    (if usesContext req then contextManager_getConversationHistory w else ([], w))"

definition sequentialProcessing ::
  "Provider \<Rightarrow> OrchestrationRequest \<Rightarrow> string list \<Rightarrow> World \<Rightarrow>
   (error + OrchestrationResult) \<times> World" where
  "sequentialProcessing P req ms w =
    (let (history, w0) = readHistory req w
     in case sequentialLoop P req history ms (prompt req) [] w0 of
          (Inl e, w1) \<Rightarrow> (Inl e, w1)
        | (Inr responses, w1) \<Rightarrow>
            (Inr \<lparr>res_strategy = Sequential, res_models = ms, res_responses = Some responses,
                  res_rounds = None, res_synthesis = None, res_consensus = None,
                  res_conclusion = None, res_conversationId = None\<rparr>, w1))"

subsection \<open>Parallel\<close>

text \<open>
  \<open>models.map(async ...)\<close> starts the calls in list order; each callback runs up to
  its provider call before the next one starts. \<open>parallelCalls\<close> gives, per model, how
  its call settled. The \<open>catch\<close> turns a failure into \<open>null\<close>, and
  \<open>filter(Boolean)\<close> drops the \<open>null\<close>s.
\<close>

definition parallelMessages :: "OrchestrationRequest \<Rightarrow> Message list \<Rightarrow> ContextMessage list" where
  "parallelMessages req history = map toContextMessage history @ [userMessage (prompt req)]"

fun parallelCalls ::
  "Provider \<Rightarrow> OrchestrationRequest \<Rightarrow> Message list \<Rightarrow> string list \<Rightarrow> World \<Rightarrow>
   (string \<times> (error + string)) list \<times> World" where
  "parallelCalls P req history [] w = ([], w)"
| "parallelCalls P req history (m # rest) w =
    (let messages = parallelMessages req history;
         (r, w1) = provider_completeWithContext P messages (withModel req m) w;
         (rs, w2) = parallelCalls P req history rest w1
     in ((m, r) # rs, w2))"

fun settled :: "string \<times> (error + string) \<Rightarrow> ProviderResponse option" where
  "settled (m, Inl e) = None"
| "settled (m, Inr response) = Some \<lparr>pr_model = m, pr_response = response\<rparr>"

definition filterBoolean :: "'a option list \<Rightarrow> 'a list" where
  "filterBoolean xs = List.map_filter id xs"

definition responseBlock :: "ProviderResponse \<Rightarrow> string" where
  "responseBlock r = pr_model r @ '':\<newline>'' @ pr_response r"

definition synthesisPrompt :: "ProviderResponse list \<Rightarrow> string \<Rightarrow> string" where
  "synthesisPrompt responses originalPrompt =
    ''Original question: '' @ originalPrompt
    @ ''\<newline>\<newline>I have received the following responses from different AI models:\<newline>\<newline>''
    @ join ''\<newline>\<newline>---\<newline>\<newline>'' (map responseBlock responses)
    @ ''\<newline>\<newline>Please synthesize these responses into a comprehensive, balanced answer that:\<newline>''
    @ ''1. Incorporates the best insights from each model\<newline>''
    @ ''2. Resolves any contradictions\<newline>''
    @ ''3. Provides a clear, actionable response\<newline>''
    @ ''4. Highlights any important considerations or caveats''"

definition synthesizeResponses ::
  "Provider \<Rightarrow> ProviderResponse list \<Rightarrow> string \<Rightarrow> World \<Rightarrow> (error + string) \<times> World" where
  "synthesizeResponses P responses originalPrompt w =
    provider_complete P (synthesisPrompt responses originalPrompt)
      (fixedModel ''anthropic/claude-3.5-sonnet'') w"

text \<open>The history read and the per-model calls: everything before the synthesis.\<close>

definition parallelCollect ::
  "Provider \<Rightarrow> OrchestrationRequest \<Rightarrow> string list \<Rightarrow> World \<Rightarrow>
   (string \<times> (error + string)) list \<times> World" where
  "parallelCollect P req ms w =
    (let (history, w0) = readHistory req w in parallelCalls P req history ms w0)"

definition parallelProcessing ::
  "Provider \<Rightarrow> OrchestrationRequest \<Rightarrow> string list \<Rightarrow> World \<Rightarrow>
   (error + OrchestrationResult) \<times> World" where
  "parallelProcessing P req ms w =
    (let (outcomes, w1) = parallelCollect P req ms w;
         responses = filterBoolean (map settled outcomes)
     in case synthesizeResponses P responses (prompt req) w1 of
          (Inl e, w2) \<Rightarrow> (Inl e, w2)
        | (Inr synthesis, w2) \<Rightarrow>
            (let w3 = (if usesContext req \<and> synthesis \<noteq> []
                       then contextManager_addMessage
                              \<lparr>in_role = Assistant, in_content = synthesis,
                               in_model = Some ''synthesis'',
                               in_metadata = Some [(''models'', MStr (join '', '' ms))]\<rparr> w2
                       else w2)
             in (Inr \<lparr>res_strategy = Parallel, res_models = ms, res_responses = Some responses,
                      res_rounds = None, res_synthesis = Some synthesis, res_consensus = None,
                      res_conclusion = None, res_conversationId = None\<rparr>, w3)))"

subsection \<open>Debate\<close>

definition roundBlock :: "DebateRound \<Rightarrow> string" where
  "roundBlock r =
    ''Round '' @ showInt (dr_round r) @ '':\<newline>''
    @ join ''\<newline>\<newline>'' (map (\<lambda>x. pr_model x @ '': '' @ pr_response x) (dr_responses r))"

definition formatDebateHistory :: "DebateRound list \<Rightarrow> string" where
  "formatDebateHistory rounds = join ''\<newline>\<newline>---\<newline>\<newline>'' (map roundBlock rounds)"

text \<open>\<open>request.options?.maxRounds\<close>\<close>

definition specifiedMaxRounds :: "OrchestrationRequest \<Rightarrow> int option" where
  "specifiedMaxRounds req = (case options req of None \<Rightarrow> None | Some opts \<Rightarrow> maxRounds opts)"

text \<open>\<open>request.options?.maxRounds || 3\<close>: absent and 0 both give 3.\<close>

definition debateMaxRounds :: "OrchestrationRequest \<Rightarrow> int" where
  "debateMaxRounds req =
    (case specifiedMaxRounds req of None \<Rightarrow> 3 | Some n \<Rightarrow> if n = 0 then 3 else n)"

definition debatePrompt :: "string \<Rightarrow> DebateRound list \<Rightarrow> int \<Rightarrow> string" where
  "debatePrompt debateContext rounds rnd =
    (if rnd = 0 then debateContext
     else debateContext @ ''\<newline>\<newline>Previous responses in the debate:\<newline>''
          @ formatDebateHistory rounds
          @ ''\<newline>\<newline>Provide your perspective, counter-arguments, or refinements:'')"

fun debateRound ::
  "Provider \<Rightarrow> OrchestrationRequest \<Rightarrow> string \<Rightarrow> string list \<Rightarrow> ProviderResponse list \<Rightarrow>
   World \<Rightarrow> (error + ProviderResponse list) \<times> World" where
  "debateRound P req p [] roundResponses w = (Inr roundResponses, w)"
| "debateRound P req p (m # rest) roundResponses w =
    (case provider_complete P p (withModel req m) w of
       (Inl e, w1) \<Rightarrow> (Inl e, w1)
     | (Inr response, w1) \<Rightarrow>
         debateRound P req p rest
           (roundResponses @ [\<lparr>pr_model = m, pr_response = response\<rparr>]) w1)"

function debateLoop ::
  "Provider \<Rightarrow> OrchestrationRequest \<Rightarrow> string list \<Rightarrow> int \<Rightarrow> int \<Rightarrow> DebateRound list \<Rightarrow>
   World \<Rightarrow> (error + DebateRound list) \<times> World" where
  "debateLoop P req ms mx rnd rounds w =
    (if rnd < mx
     then (case debateRound P req (debatePrompt (prompt req) rounds rnd) ms [] w of
             (Inl e, w1) \<Rightarrow> (Inl e, w1)
           | (Inr roundResponses, w1) \<Rightarrow>
               debateLoop P req ms mx (rnd + 1)
                 (rounds @ [\<lparr>dr_round = rnd + 1, dr_responses = roundResponses\<rparr>]) w1)
     else (Inr rounds, w))"
  by pat_completeness auto
termination
  by (relation "measure (\<lambda>(P, req, ms, mx, rnd, rounds, w). nat (mx - rnd))") auto

declare debateLoop.simps [simp del]

definition conclusionPrompt :: "DebateRound list \<Rightarrow> string \<Rightarrow> string" where
  "conclusionPrompt rounds originalPrompt =
    ''Original topic: '' @ originalPrompt
    @ ''\<newline>\<newline>Debate history:\<newline>''
    @ formatDebateHistory rounds
    @ ''\<newline>\<newline>Based on this debate, provide a balanced conclusion that:\<newline>''
    @ ''1. Summarizes the key points raised by each model\<newline>''
    @ ''2. Identifies areas of agreement and disagreement\<newline>''
    @ ''3. Provides a well-reasoned final perspective\<newline>''
    @ ''4. Suggests the most practical approach or solution''"

definition generateDebateConclusion ::
  "Provider \<Rightarrow> DebateRound list \<Rightarrow> string \<Rightarrow> World \<Rightarrow> (error + string) \<times> World" where
  "generateDebateConclusion P rounds originalPrompt w =
    provider_complete P (conclusionPrompt rounds originalPrompt) (fixedModel ''openai/gpt-4o'') w"

definition debateMode ::
  "Provider \<Rightarrow> OrchestrationRequest \<Rightarrow> string list \<Rightarrow> World \<Rightarrow>
   (error + OrchestrationResult) \<times> World" where
  "debateMode P req ms w =
    (let mx = debateMaxRounds req
     in case debateLoop P req ms mx 0 [] w of
          (Inl e, w1) \<Rightarrow> (Inl e, w1)
        | (Inr rounds, w1) \<Rightarrow>
            (case generateDebateConclusion P rounds (prompt req) w1 of
               (Inl e, w2) \<Rightarrow> (Inl e, w2)
             | (Inr conclusion, w2) \<Rightarrow>
                 (let w3 = (if usesContext req
                            then contextManager_addMessage
                                   \<lparr>in_role = Assistant, in_content = conclusion,
                                    in_model = Some ''debate-conclusion'',
                                    in_metadata = Some [(''models'', MStr (join '', '' ms)),
                                                        (''rounds'', MNum mx)]\<rparr> w2
                            else w2)
                  in (Inr \<lparr>res_strategy = Debate, res_models = ms, res_responses = None,
                           res_rounds = Some rounds, res_synthesis = None,
                           res_consensus = None, res_conclusion = Some conclusion,
                           res_conversationId = None\<rparr>, w3))))"

subsection \<open>Consensus\<close>

definition consensusPrompt :: "ProviderResponse list \<Rightarrow> string \<Rightarrow> string" where
  "consensusPrompt responses originalPrompt =
    ''Original question: '' @ originalPrompt
    @ ''\<newline>\<newline>Different AI models provided these responses:\<newline>\<newline>''
    @ join ''\<newline>\<newline>---\<newline>\<newline>'' (map responseBlock responses)
    @ ''\<newline>\<newline>Analyze these responses and provide:\<newline>''
    @ ''1. Common themes and points of agreement\<newline>''
    @ ''2. Key differences in approach or content\<newline>''
    @ ''3. A consensus view that represents the shared understanding\<newline>''
    @ ''4. Any important caveats or considerations''"

definition findConsensus ::
  "Provider \<Rightarrow> ProviderResponse list \<Rightarrow> string \<Rightarrow> World \<Rightarrow> (error + string) \<times> World" where
  "findConsensus P responses originalPrompt w =
    provider_complete P (consensusPrompt responses originalPrompt)
      (fixedModel ''google/gemini-2.5-pro-preview'') w"

definition consensusMode ::
  "Provider \<Rightarrow> OrchestrationRequest \<Rightarrow> string list \<Rightarrow> World \<Rightarrow>
   (error + OrchestrationResult) \<times> World" where
  "consensusMode P req ms w =
    (case parallelProcessing P req ms w of
       (Inl e, w1) \<Rightarrow> (Inl e, w1)
     | (Inr parallelResult, w1) \<Rightarrow>
         (let responses = (case res_responses parallelResult of None \<Rightarrow> [] | Some rs \<Rightarrow> rs)
          in case findConsensus P responses (prompt req) w1 of
               (Inl e, w2) \<Rightarrow> (Inl e, w2)
             | (Inr consensus, w2) \<Rightarrow>
                 (let w3 = (if usesContext req
                            then contextManager_addMessage
                                   \<lparr>in_role = Assistant, in_content = consensus,
                                    in_model = Some ''consensus'',
                                    in_metadata = Some [(''models'', MStr (join '', '' ms))]\<rparr> w2
                            else w2)
                  in (Inr \<lparr>res_strategy = Consensus, res_models = ms,
                           res_responses = Some responses, res_rounds = None,
                           res_synthesis = None, res_consensus = Some consensus,
                           res_conclusion = None, res_conversationId = None\<rparr>, w3))))"

subsection \<open>Specialist\<close>

text \<open>
  \<open>analysis\<close> has type \<open>any\<close>: it is whatever \<open>JSON.parse\<close> returned. The engine
  reads three properties of it. It uses \<open>primary\<close> and \<open>secondary\<close> as property keys
  and inside template strings, both of which take the string form of the value, and
  compares \<open>complexity\<close> with \<open>===\<close>, which only a string can satisfy. So a parsed
  value is modelled by what the engine can observe of it: \<open>NullValue\<close> for \<open>null\<close>
  (reading a property of it throws), and otherwise the string forms of \<open>primary\<close> and
  \<open>secondary\<close> and \<open>complexity\<close> when it is a string. The string form of a missing
  property is \<open>''undefined''\<close>. A value can have no string form: the conversion of
  an object whose own \<open>toString\<close> and \<open>valueOf\<close> are not functions, such as the
  parsed \<open>{toString: 1, valueOf: 1}\<close>, or of an array that holds one, throws; that is
  \<open>None\<close> in \<open>primary\<close> and \<open>secondary\<close>. \<open>JSON.parse\<close> itself belongs to the
  language, not to the repository, and is a parameter \<open>jsonParse\<close>; \<open>None\<close> is a
  thrown \<open>SyntaxError\<close>.
\<close>

datatype Analysis =
    NullValue
  | Fields (primary: "string option") (secondary: "string option") (complexity: "string option")

type_synonym JsonParse = "string \<Rightarrow> Analysis option"

record SpecialistChoice =
  sp_model :: string
  sp_reason :: string

definition analysisPrompt :: "string \<Rightarrow> string" where
  \<open>analysisPrompt p =
    ''Analyze this prompt and categorize it:\<newline>''
    @ ''    "'' @ p @ ''"\<newline>''
    @ ''    \<newline>''
    @ ''    Categories: coding, debugging, architecture, planning, analysis, creative\<newline>''
    @ ''    \<newline>''
    @ ''    Respond with: { "primary": "category", "secondary": "category", "complexity": "low|medium|high" }''\<close>

definition defaultAnalysis :: Analysis where
  "defaultAnalysis = Fields (Some ''coding'') (Some ''general'') (Some ''medium'')"

definition analyzePromptType ::
  "Provider \<Rightarrow> JsonParse \<Rightarrow> string \<Rightarrow> World \<Rightarrow> (error + Analysis) \<times> World" where
  "analyzePromptType P jsonParse p w =
    (case provider_complete P (analysisPrompt p) (fixedModel ''openai/gpt-4o-mini'') w of
       (Inl e, w1) \<Rightarrow> (Inl e, w1)
     | (Inr response, w1) \<Rightarrow>
         (Inr (case jsonParse response of Some a \<Rightarrow> a | None \<Rightarrow> defaultAnalysis), w1))"

definition specialistMap :: "(string \<times> string list) list" where
  "specialistMap =
    [(''coding'', [''anthropic/claude-opus-4'', ''deepseek/deepseek-r1'', ''mistralai/codestral-2501'']),
     (''debugging'', [''deepseek/deepseek-r1'', ''anthropic/claude-3.5-sonnet'', ''openai/gpt-4o'']),
     (''architecture'', [''anthropic/claude-opus-4'', ''openai/gpt-4o'', ''google/gemini-2.5-pro-preview'']),
     (''planning'', [''openai/gpt-4o'', ''anthropic/claude-3.5-sonnet'', ''google/gemini-2.5-pro-preview'']),
     (''analysis'', [''google/gemini-2.5-pro-preview'', ''anthropic/claude-3.5-sonnet'', ''deepseek/deepseek-r1'']),
     (''creative'', [''anthropic/claude-3.5-sonnet'', ''openai/gpt-4o'', ''google/gemini-2.5-pro-preview''])]"

text \<open>
  \<open>specialistMap\<close> is an object literal, so \<open>specialistMap[key]\<close> also finds the
  members every object inherits from \<open>Object.prototype\<close>. Each of them is truthy, so
  \<open>||\<close> keeps it, and none is iterable, so the \<open>for ... of\<close> over it throws.
\<close>

definition objectPrototypeKeys :: "string list" where
  "objectPrototypeKeys =
    [''constructor'', ''__proto__'', ''hasOwnProperty'', ''isPrototypeOf'',
     ''propertyIsEnumerable'', ''toLocaleString'', ''toString'', ''valueOf'',
     ''__defineGetter__'', ''__defineSetter__'', ''__lookupGetter__'', ''__lookupSetter__'']"

text \<open>
  \<open>specialistMap[key] || fallback\<close>: \<open>Some\<close> of the list to iterate, or \<open>None\<close> when
  the value is an inherited member.
\<close>

definition lookupSpecialists :: "string \<Rightarrow> string list \<Rightarrow> string list option" where
  "lookupSpecialists key fallback =
    (case map_of specialistMap key of
       Some l \<Rightarrow> Some l
     | None \<Rightarrow> if key \<in> set objectPrototypeKeys then None else Some fallback)"

definition numModels :: "string option \<Rightarrow> nat" where
  "numModels c = (if c = Some ''high'' then 3 else if c = Some ''medium'' then 2 else 1)"

fun addPrimary ::
  "string \<Rightarrow> string list \<Rightarrow> nat \<Rightarrow> string list \<Rightarrow> SpecialistChoice list \<Rightarrow> SpecialistChoice list" where
  "addPrimary p availableModels n [] specialists = specialists"
| "addPrimary p availableModels n (m # rest) specialists =
    addPrimary p availableModels n rest
      (if m \<in> set availableModels \<and> length specialists < n
       then specialists @ [\<lparr>sp_model = m, sp_reason = ''Selected for '' @ p @ '' tasks''\<rparr>]
       else specialists)"

fun addSecondary ::
  "string \<Rightarrow> string list \<Rightarrow> nat \<Rightarrow> string list \<Rightarrow> SpecialistChoice list \<Rightarrow> SpecialistChoice list" where
  "addSecondary s availableModels n [] specialists = specialists"
| "addSecondary s availableModels n (m # rest) specialists =
    addSecondary s availableModels n rest
      (if m \<in> set availableModels \<and> m \<notin> set (map sp_model specialists)
          \<and> length specialists < n
       then specialists @ [\<lparr>sp_model = m, sp_reason = ''Secondary specialist for '' @ s\<rparr>]
       else specialists)"

definition addFallback :: "string list \<Rightarrow> SpecialistChoice list \<Rightarrow> SpecialistChoice list" where
  "addFallback availableModels specialists =
    (case availableModels of
       [] \<Rightarrow> specialists
     | first # _ \<Rightarrow>
         if specialists = [] then [\<lparr>sp_model = first, sp_reason = ''Default model''\<rparr>]
         else specialists)"

text \<open>
  The two lookups come first, and each converts its key to a string, which throws for a
  value without string form. Then come the two loops, each of which throws when what it
  iterates is an inherited member.
\<close>

definition selectSpecialists :: "Analysis \<Rightarrow> string list \<Rightarrow> error + SpecialistChoice list" where
  "selectSpecialists analysis availableModels =
    (case analysis of
       NullValue \<Rightarrow> Inl (TypeError ''cannot read properties of null'')
     | Fields primaryKey secondaryKey c \<Rightarrow>
         (case primaryKey of
            None \<Rightarrow> Inl (TypeError ''cannot convert object to primitive value'')
          | Some p \<Rightarrow>
              (case secondaryKey of
                 None \<Rightarrow> Inl (TypeError ''cannot convert object to primitive value'')
               | Some s \<Rightarrow>
                   (let primarySpecialists = lookupSpecialists p [''openai/gpt-4o''];
                        secondarySpecialists = lookupSpecialists s [];
                        n = numModels c
                    in case primarySpecialists of
                         None \<Rightarrow> Inl (TypeError ''primarySpecialists is not iterable'')
                       | Some ps \<Rightarrow>
                           (case secondarySpecialists of
                              None \<Rightarrow> Inl (TypeError ''secondarySpecialists is not iterable'')
                            | Some ss \<Rightarrow>
                                Inr (addFallback availableModels
                                       (addSecondary s availableModels n ss
                                          (addPrimary p availableModels n ps []))))))))"

fun specialistLoop ::
  "Provider \<Rightarrow> OrchestrationRequest \<Rightarrow> SpecialistChoice list \<Rightarrow> ProviderResponse list \<Rightarrow>
   World \<Rightarrow> (error + ProviderResponse list) \<times> World" where
  "specialistLoop P req [] responses w = (Inr responses, w)"
| "specialistLoop P req (specialist # rest) responses w =
    (case provider_complete P (prompt req) (withModel req (sp_model specialist)) w of
       (Inl e, w1) \<Rightarrow> (Inl e, w1)
     | (Inr response, w1) \<Rightarrow>
         (let responses' = responses @ [\<lparr>pr_model = sp_model specialist, pr_response = response\<rparr>];
              w2 = (if usesContext req
                    then contextManager_addMessage
                           \<lparr>in_role = Assistant, in_content = response,
                            in_model = Some (sp_model specialist),
                            in_metadata = Some [(''reason'', MStr (sp_reason specialist))]\<rparr> w1
                    else w1)
          in specialistLoop P req rest responses' w2))"

text \<open>The routing phase: everything after the classification.\<close>

definition routeSpecialists ::
  "Provider \<Rightarrow> OrchestrationRequest \<Rightarrow> Analysis \<Rightarrow> string list \<Rightarrow> World \<Rightarrow>
   (error + OrchestrationResult) \<times> World" where
  "routeSpecialists P req analysis ms w =
    (case selectSpecialists analysis ms of
       Inl e \<Rightarrow> (Inl e, w)
     | Inr specialists \<Rightarrow>
         (case specialistLoop P req specialists [] w of
            (Inl e, w1) \<Rightarrow> (Inl e, w1)
          | (Inr responses, w1) \<Rightarrow>
              (Inr \<lparr>res_strategy = Specialist, res_models = map sp_model specialists,
                    res_responses = Some responses, res_rounds = None, res_synthesis = None,
                    res_consensus = None, res_conclusion = None,
                    res_conversationId = None\<rparr>, w1)))"

definition specialistRouting ::
  "Provider \<Rightarrow> JsonParse \<Rightarrow> OrchestrationRequest \<Rightarrow> string list \<Rightarrow> World \<Rightarrow>
   (error + OrchestrationResult) \<times> World" where
  "specialistRouting P jsonParse req ms w =
    (case analyzePromptType P jsonParse (prompt req) w of
       (Inl e, w1) \<Rightarrow> (Inl e, w1)
     | (Inr analysis, w1) \<Rightarrow> routeSpecialists P req analysis ms w1)"

subsection \<open>Dispatch\<close>

text \<open>
  \<open>request.models || this.defaultModels.slice(0, 3)\<close>: an array is truthy, the empty
  one too, so only an absent \<open>models\<close> gives the default.
\<close>

definition selectModels :: "OrchestrationRequest \<Rightarrow> string list" where
  "selectModels req = (case models req of Some l \<Rightarrow> l | None \<Rightarrow> take 3 defaultModels)"

definition userPromptMessage :: "OrchestrationRequest \<Rightarrow> MessageInput" where
  "userPromptMessage req =
    \<lparr>in_role = User, in_content = prompt req, in_model = None, in_metadata = None\<rparr>"

definition addUserMessage :: "OrchestrationRequest \<Rightarrow> World \<Rightarrow> World" where
  "addUserMessage req w =
    (if usesContext req then contextManager_addMessage (userPromptMessage req) w else w)"

definition dispatch ::
  "Provider \<Rightarrow> JsonParse \<Rightarrow> OrchestrationRequest \<Rightarrow> string list \<Rightarrow> World \<Rightarrow>
   (error + OrchestrationResult) \<times> World" where
  "dispatch P jsonParse req ms w =
    (if strategy req = Sequential then sequentialProcessing P req ms w
     else if strategy req = Parallel then parallelProcessing P req ms w
     else if strategy req = Debate then debateMode P req ms w
     else if strategy req = Consensus then consensusMode P req ms w
     else if strategy req = Specialist then specialistRouting P jsonParse req ms w
     else (Inl (StrategyError (''Unknown orchestration strategy: '' @ strategy req)), w))"

definition orchestrate ::
  "Provider \<Rightarrow> JsonParse \<Rightarrow> OrchestrationRequest \<Rightarrow> World \<Rightarrow>
   (error + OrchestrationResult) \<times> World" where
  "orchestrate P jsonParse req w =
    (let ms = selectModels req;
         w1 = addUserMessage req w
     in case dispatch P jsonParse req ms w1 of
          (Inl e, w2) \<Rightarrow> (Inl e, w2)
        | (Inr result, w2) \<Rightarrow>
            (Inr (result\<lparr>res_conversationId := Some (getSummary (store w2))\<rparr>), w2))"

definition recognized :: "string \<Rightarrow> bool" where
  "recognized s = (s \<in> {Sequential, Parallel, Debate, Consensus, Specialist})"

text \<open>The provider calls of a trace, and its \<open>addMessage\<close> writes.\<close>

fun providerCalls :: "Event list \<Rightarrow> ProviderCall list" where
  "providerCalls [] = []"
| "providerCalls (ProviderCalled c # es) = c # providerCalls es"
| "providerCalls (MessageAdded m # es) = providerCalls es"

fun messagesAdded :: "Event list \<Rightarrow> MessageInput list" where
  "messagesAdded [] = []"
| "messagesAdded (ProviderCalled c # es) = messagesAdded es"
| "messagesAdded (MessageAdded m # es) = m # messagesAdded es"

section \<open>Vocabulary of the statements\<close>

text \<open>
  The outcome of the synthesis call of a Parallel run that starts in \<open>w\<close>: the
  provider's answer to the synthesis prompt, asked after the per-model calls.
\<close>

definition parallelSynthesisOutcome ::
  "Provider \<Rightarrow> OrchestrationRequest \<Rightarrow> string list \<Rightarrow> World \<Rightarrow> string + string" where
  "parallelSynthesisOutcome P req ms w =
    (let (outcomes, w1) = parallelCollect P req ms w
     in P (events w1)
          (Complete (synthesisPrompt (filterBoolean (map settled outcomes)) (prompt req))
             (fixedModel ''anthropic/claude-3.5-sonnet'')))"

text \<open>The call that the Parallel strategy issues for model \<open>m\<close>.\<close>

definition parallelCall :: "OrchestrationRequest \<Rightarrow> Message list \<Rightarrow> string \<Rightarrow> ProviderCall" where
  "parallelCall req history m = CompleteWithContext (parallelMessages req history) (withModel req m)"

definition asProviderError :: "string + string \<Rightarrow> error + string" where
  "asProviderError r = (case r of Inl e \<Rightarrow> Inl (ProviderError e) | Inr t \<Rightarrow> Inr t)"

text \<open>
  The trace of a Sequential run with context that produced \<open>responses\<close>: for each
  model in turn, the call with the history and the current prompt, then the
  \<open>addMessage\<close> of its response; the next prompt embeds that response only.
\<close>

fun sequentialEvents ::
  "OrchestrationRequest \<Rightarrow> Message list \<Rightarrow> string \<Rightarrow> ProviderResponse list \<Rightarrow> Event list" where
  "sequentialEvents req history currentPrompt [] = []"
| "sequentialEvents req history currentPrompt (r # rs) =
    ProviderCalled (CompleteWithContext
        (map toContextMessage history @ [userMessage currentPrompt])
        (withModel req (pr_model r)))
    # MessageAdded \<lparr>in_role = Assistant, in_content = pr_response r,
                     in_model = Some (pr_model r), in_metadata = None\<rparr>
    # sequentialEvents req history
        (refinementPrompt (prompt req) (pr_model r) (pr_response r)) rs"

text \<open>
  The prompt of the \<open>i\<close>-th call (counted from 0) of a Sequential run that starts
  with the prompt \<open>first\<close> and has produced \<open>responses\<close>, the call itself, and the
  message that is stored for a response.
\<close>

definition currentPromptAt ::
  "OrchestrationRequest \<Rightarrow> string \<Rightarrow> ProviderResponse list \<Rightarrow> nat \<Rightarrow> string" where
  "currentPromptAt req first responses i =
    (if i = 0 then first
     else refinementPrompt (prompt req) (pr_model (responses ! (i - 1)))
            (pr_response (responses ! (i - 1))))"

definition sequentialCall ::
  "OrchestrationRequest \<Rightarrow> Message list \<Rightarrow> string \<Rightarrow> ProviderResponse list \<Rightarrow> string list \<Rightarrow>
   nat \<Rightarrow> ProviderCall" where
  "sequentialCall req history first responses ms i =
    CompleteWithContext
      (map toContextMessage history @ [userMessage (currentPromptAt req first responses i)])
      (withModel req (ms ! i))"

definition responseMessage :: "ProviderResponse \<Rightarrow> MessageInput" where
  "responseMessage r =
    \<lparr>in_role = Assistant, in_content = pr_response r, in_model = Some (pr_model r),
     in_metadata = None\<rparr>"

text \<open>
  The calls of round \<open>i\<close> (counted from 0) of a debate whose rounds are \<open>rounds\<close>:
  one \<open>complete\<close> per model, all with the prompt built from the rounds before \<open>i\<close>.
\<close>

definition debateRoundCalls ::
  "OrchestrationRequest \<Rightarrow> string list \<Rightarrow> DebateRound list \<Rightarrow> nat \<Rightarrow> ProviderCall list" where
  "debateRoundCalls req ms rounds i =
    map (\<lambda>m. Complete (debatePrompt (prompt req) (take i rounds) (int i)) (withModel req m)) ms"

text \<open>Whether some message of a list has the text \<open>t\<close> inside its content.\<close>

definition mentions :: "string \<Rightarrow> ContextMessage list \<Rightarrow> bool" where
  "mentions t msgs = list_ex (\<lambda>m. sublist t (cm_content m)) msgs"

text \<open>What a call leaves of the store: the same store and no new \<open>addMessage\<close>.\<close>

definition sameContext :: "World \<Rightarrow> World \<Rightarrow> bool" where
  "sameContext w w' =
    (store w' = store w \<and> messagesAdded (events w') = messagesAdded (events w))"

section \<open>Sample inputs\<close>

definition emptyStore :: ContextStore where
  "emptyStore = \<lparr>currentConversationId = ''c1'', rows = [], cache = (\<lambda>_. [])\<rparr>"

definition emptyWorld :: World where
  "emptyWorld = \<lparr>store = emptyStore, events = []\<rparr>"

definition modelOf :: "ProviderCall \<Rightarrow> string" where
  "modelOf c =
    (case c of
       Complete p opts \<Rightarrow> (case opt_model opts of Some m \<Rightarrow> m | None \<Rightarrow> ''openai/gpt-4o'')
     | CompleteWithContext msgs opts \<Rightarrow>
         (case opt_model opts of Some m \<Rightarrow> m | None \<Rightarrow> ''openai/gpt-4o''))"

text \<open>A provider that always answers, with a text that names the model called.\<close>

definition replyingProvider :: Provider where
  "replyingProvider evs c = Inr (''reply of '' @ modelOf c)"

text \<open>A provider whose \<open>complete\<close> is down while \<open>completeWithContext\<close> answers.\<close>

definition completeDownProvider :: Provider where
  "completeDownProvider evs c =
    (case c of
       Complete p opts \<Rightarrow> Inl ''service unavailable''
     | CompleteWithContext msgs opts \<Rightarrow> Inr (''reply of '' @ modelOf c))"

text \<open>A provider that fails for model \<open>B\<close> and answers for every other model.\<close>

definition flakyProvider :: Provider where
  "flakyProvider evs c =
    (if modelOf c = ''B'' then Inl ''timeout'' else Inr (''reply of '' @ modelOf c))"

text \<open>A provider that answers \<open>t\<close> to the classification call and as above otherwise.\<close>

definition classifierAnswering :: "string \<Rightarrow> Provider" where
  "classifierAnswering t evs c =
    (if modelOf c = ''openai/gpt-4o-mini'' then Inr t else Inr (''reply of '' @ modelOf c))"

text \<open>
  \<open>JSON.parse\<close> on three texts that are valid JSON, and rejecting every other text.
  \<open>42\<close> has none of the three properties, so both categories read as \<open>undefined\<close> and
  the complexity is no string.
\<close>

definition literalParse :: JsonParse where
  \<open>literalParse response =
    (if response = ''null'' then Some NullValue
     else if response = ''42'' then Some (Fields (Some ''undefined'') (Some ''undefined'') None)
     else if response = ''{"primary":"constructor","secondary":"general","complexity":"low"}''
       then Some (Fields (Some ''constructor'') (Some ''general'') (Some ''low''))
     else None)\<close>

definition specialistRequest :: OrchestrationRequest where
  "specialistRequest =
    \<lparr>prompt = ''X'', strategy = ''specialist'',
     models = Some [''anthropic/claude-opus-4'', ''deepseek/deepseek-r1''],
     options = None, useContext = Some False\<rparr>"

text \<open>A parser that rejects every text.\<close>

definition rejectingParse :: JsonParse where
  "rejectingParse response = None"

definition sampleRequest :: "string \<Rightarrow> string list option \<Rightarrow> bool option \<Rightarrow> OrchestrationRequest" where
  "sampleRequest strat ms ctx =
    \<lparr>prompt = ''X'', strategy = strat, models = ms, options = None, useContext = ctx\<rparr>"

definition threeModels :: OrchestrationRequest where
  "threeModels = sampleRequest ''parallel'' (Some [''A'', ''B'', ''C'']) (Some False)"

definition debateRequest :: OrchestrationRequest where
  "debateRequest =
    \<lparr>prompt = ''X'', strategy = ''debate'', models = Some [''A'', ''B''],
     options = Some \<lparr>maxRounds = Some 2, temperature = None, includeReasoning = None\<rparr>,
     useContext = Some False\<rparr>"

definition abcRequest :: OrchestrationRequest where
  "abcRequest = sampleRequest ''sequential'' (Some [''A'', ''B'', ''C'']) None"

text \<open>The row that \<open>addMessage\<close> stores for the prompt of the sample requests.\<close>

definition promptRow :: Message where
  "promptRow = \<lparr>msg_conversationId = ''c1'', msg_role = User, msg_content = ''X'',
                 msg_model = None, msg_metadata = None\<rparr>"

section \<open>Frame lemmas\<close>

lemma providerCalls_append: "providerCalls (xs @ ys) = providerCalls xs @ providerCalls ys"
  by (induction xs rule: providerCalls.induct) simp_all

lemma messagesAdded_append: "messagesAdded (xs @ ys) = messagesAdded xs @ messagesAdded ys"
  by (induction xs rule: messagesAdded.induct) simp_all

lemma dispatch_unrecognized:
  "\<not> recognized (strategy req) \<Longrightarrow>
   dispatch P jsonParse req ms w =
     (Inl (StrategyError (''Unknown orchestration strategy: '' @ strategy req)), w)"
  by (simp add: dispatch_def recognized_def)

lemma orchestrate_unrecognized:
  "\<not> recognized (strategy req) \<Longrightarrow>
   orchestrate P jsonParse req w =
     (Inl (StrategyError (''Unknown orchestration strategy: '' @ strategy req)),
      addUserMessage req w)"
  by (simp add: orchestrate_def dispatch_unrecognized)

lemma sameContext_refl [simp]: "sameContext w w"
  by (simp add: sameContext_def)

lemma sameContext_trans: "sameContext w w1 \<Longrightarrow> sameContext w1 w2 \<Longrightarrow> sameContext w w2"
  by (simp add: sameContext_def)

lemma provider_call_same: "provider_call P c w = (r, w') \<Longrightarrow> sameContext w w'"
  by (auto simp: provider_call_def sameContext_def messagesAdded_append)

lemma provider_complete_same: "provider_complete P p opts w = (r, w') \<Longrightarrow> sameContext w w'"
  unfolding provider_complete_def by (rule provider_call_same)

lemma provider_completeWithContext_same:
  "provider_completeWithContext P msgs opts w = (r, w') \<Longrightarrow> sameContext w w'"
  unfolding provider_completeWithContext_def by (rule provider_call_same)

lemma readHistory_unused: "\<not> usesContext req \<Longrightarrow> readHistory req w = ([], w)"
  by (simp add: readHistory_def)

lemma sequentialLoop_same:
  "\<not> usesContext req \<Longrightarrow> sequentialLoop P req history ms cp rs w = (r, w') \<Longrightarrow>
   sameContext w w'"
proof (induction ms arbitrary: cp rs w)
  case Nil
  then show ?case by simp
next
  case (Cons m ms)
  obtain r1 w1 where c: "provider_completeWithContext P
      (map toContextMessage history @ [userMessage cp]) (withModel req m) w = (r1, w1)"
    by fastforce
  have s1: "sameContext w w1" using c by (rule provider_completeWithContext_same)
  show ?case
  proof (cases r1)
    case (Inl e)
    with Cons.prems c have "w' = w1" by simp
    with s1 show ?thesis by simp
  next
    case (Inr response)
    with Cons.prems c have
      "sequentialLoop P req history ms (refinementPrompt (prompt req) m response)
         (rs @ [\<lparr>pr_model = m, pr_response = response\<rparr>]) w1 = (r, w')"
      by (simp add: Let_def)
    from Cons.IH[OF Cons.prems(1) this] s1 show ?thesis by (rule sameContext_trans[rotated])
  qed
qed

lemma sequentialProcessing_same:
  "\<not> usesContext req \<Longrightarrow> sequentialProcessing P req ms w = (r, w') \<Longrightarrow> sameContext w w'"
  by (auto simp: sequentialProcessing_def readHistory_unused split: prod.splits sum.splits
      dest: sequentialLoop_same)

lemma parallelCalls_same:
  "parallelCalls P req history ms w = (r, w') \<Longrightarrow> sameContext w w'"
proof (induction ms arbitrary: r w)
  case Nil
  then show ?case by simp
next
  case (Cons m ms)
  then show ?case
    by (auto simp: Let_def split: prod.splits
        dest!: provider_completeWithContext_same intro: sameContext_trans)
qed

lemma parallelProcessing_same:
  "\<not> usesContext req \<Longrightarrow> parallelProcessing P req ms w = (r, w') \<Longrightarrow> sameContext w w'"
  by (auto simp: parallelProcessing_def parallelCollect_def readHistory_unused
      synthesizeResponses_def Let_def split: prod.splits sum.splits
      dest!: parallelCalls_same provider_complete_same intro: sameContext_trans)

lemma debateRound_same:
  "debateRound P req p ms rs w = (r, w') \<Longrightarrow> sameContext w w'"
proof (induction ms arbitrary: rs w)
  case Nil
  then show ?case by simp
next
  case (Cons m ms)
  then show ?case
    by (auto split: prod.splits sum.splits
        dest!: provider_complete_same intro: sameContext_trans)
qed

lemma debateLoop_same:
  "debateLoop P req ms mx rnd rounds w = (r, w') \<Longrightarrow> sameContext w w'"
proof (induction P req ms mx rnd rounds w rule: debateLoop.induct)
  case (1 P req ms mx rnd rounds w)
  show ?case
  proof (cases "rnd < mx")
    case False
    with "1.prems" show ?thesis by (simp add: debateLoop.simps)
  next
    case True
    obtain r1 w1 where
      c: "debateRound P req (debatePrompt (prompt req) rounds rnd) ms [] w = (r1, w1)"
      by fastforce
    have s1: "sameContext w w1" using c by (rule debateRound_same)
    show ?thesis
    proof (cases r1)
      case (Inl e)
      with "1.prems" c True have "w' = w1" by (simp add: debateLoop.simps)
      with s1 show ?thesis by simp
    next
      case (Inr rr)
      with "1.prems" c True have
        "debateLoop P req ms mx (rnd + 1)
           (rounds @ [\<lparr>dr_round = rnd + 1, dr_responses = rr\<rparr>]) w1 = (r, w')"
        by (simp add: debateLoop.simps)
      from "1.IH"[OF True c[symmetric] Inr this] s1 show ?thesis
        by (rule sameContext_trans[rotated])
    qed
  qed
qed

lemma debateMode_same:
  "\<not> usesContext req \<Longrightarrow> debateMode P req ms w = (r, w') \<Longrightarrow> sameContext w w'"
  by (auto simp: debateMode_def generateDebateConclusion_def Let_def
      split: prod.splits sum.splits
      dest!: debateLoop_same provider_complete_same intro: sameContext_trans)

lemma consensusMode_same:
  "\<not> usesContext req \<Longrightarrow> consensusMode P req ms w = (r, w') \<Longrightarrow> sameContext w w'"
  by (auto simp: consensusMode_def findConsensus_def Let_def
      split: prod.splits sum.splits
      dest!: parallelProcessing_same provider_complete_same intro: sameContext_trans)

lemma specialistLoop_same:
  "\<not> usesContext req \<Longrightarrow> specialistLoop P req sps rs w = (r, w') \<Longrightarrow> sameContext w w'"
proof (induction sps arbitrary: rs w)
  case Nil
  then show ?case by simp
next
  case (Cons sp sps)
  then show ?case
    by (auto simp: Let_def split: prod.splits sum.splits
        dest!: provider_complete_same intro: sameContext_trans)
qed

lemma specialistRouting_same:
  "\<not> usesContext req \<Longrightarrow> specialistRouting P jp req ms w = (r, w') \<Longrightarrow> sameContext w w'"
  by (auto simp: specialistRouting_def routeSpecialists_def analyzePromptType_def
      split: prod.splits sum.splits
      dest!: specialistLoop_same provider_complete_same intro: sameContext_trans)

lemma dispatch_same:
  "\<not> usesContext req \<Longrightarrow> dispatch P jp req ms w = (r, w') \<Longrightarrow> sameContext w w'"
  by (auto simp: dispatch_def split: if_splits
      dest: sequentialProcessing_same parallelProcessing_same debateMode_same
        consensusMode_same specialistRouting_same)

lemma orchestrate_same:
  "\<not> usesContext req \<Longrightarrow> orchestrate P jp req w = (r, w') \<Longrightarrow> sameContext w w'"
  by (auto simp: orchestrate_def addUserMessage_def Let_def split: prod.splits sum.splits
      dest: dispatch_same)

section \<open>Dispatch: an unrecognized strategy\<close>

text \<open>
  Claim C4. For every request whose strategy is none of the five recognized values,
  \<open>orchestrate\<close> fails with the unknown-strategy error, and the invocation makes no
  provider call, neither \<open>complete\<close> nor \<open>completeWithContext\<close>: the only event it can
  add to the trace is the \<open>addMessage\<close> of the user prompt.
\<close>

theorem unsupported_strategy_fails_without_provider_call:
  assumes "\<not> recognized (strategy req)"
  shows "fst (orchestrate P jsonParse req w)
           = Inl (StrategyError (''Unknown orchestration strategy: '' @ strategy req))
       \<and> events (snd (orchestrate P jsonParse req w))
           = events w @ (if usesContext req then [MessageAdded (userPromptMessage req)] else [])
       \<and> providerCalls (events (snd (orchestrate P jsonParse req w))) = providerCalls (events w)"
  using assms
  by (simp add: orchestrate_unrecognized addUserMessage_def contextManager_addMessage_def
      providerCalls_append)

theorem unsupported_strategy_fails_without_provider_call_witness:
  "\<not> recognized (strategy (sampleRequest ''tournament'' None None))
   \<and> fst (orchestrate replyingProvider rejectingParse (sampleRequest ''tournament'' None None)
            emptyWorld)
       = Inl (StrategyError ''Unknown orchestration strategy: tournament'')
   \<and> providerCalls (events (snd (orchestrate replyingProvider rejectingParse
        (sampleRequest ''tournament'' None None) emptyWorld))) = []"
proof -
  have h: "\<not> recognized (strategy (sampleRequest ''tournament'' None None))"
    by (simp add: recognized_def sampleRequest_def Sequential_def Parallel_def Debate_def
        Consensus_def Specialist_def)
  from unsupported_strategy_fails_without_provider_call[OF h, of replyingProvider
      rejectingParse emptyWorld]
  show ?thesis using h by (simp add: sampleRequest_def emptyWorld_def)
qed

text \<open>
  Claim C10. When the strategy is unrecognized and \<open>useContext\<close> is not explicitly
  false, \<open>orchestrate\<close> has appended the user-role prompt message to the Context Store
  by the time it throws the unknown-strategy error: the call fails and the store is
  changed all the same.
\<close>

theorem unsupported_strategy_still_writes_user_message:
  assumes "\<not> recognized (strategy req)" and "useContext req \<noteq> Some False"
  shows "fst (orchestrate P jsonParse req w)
           = Inl (StrategyError (''Unknown orchestration strategy: '' @ strategy req))
       \<and> store (snd (orchestrate P jsonParse req w))
           = addMessage (userPromptMessage req) (store w)
       \<and> rows (store (snd (orchestrate P jsonParse req w)))
           = rows (store w)
             @ [\<lparr>msg_conversationId = currentConversationId (store w), msg_role = User,
                 msg_content = prompt req, msg_model = None, msg_metadata = None\<rparr>]
       \<and> store (snd (orchestrate P jsonParse req w)) \<noteq> store w"
proof -
  let ?w' = "snd (orchestrate P jsonParse req w)"
  have r: "fst (orchestrate P jsonParse req w)
           = Inl (StrategyError (''Unknown orchestration strategy: '' @ strategy req))"
    using assms(1) by (simp add: orchestrate_unrecognized)
  have s: "store ?w' = addMessage (userPromptMessage req) (store w)"
    using assms
    by (simp add: orchestrate_unrecognized addUserMessage_def usesContext_def
        contextManager_addMessage_def)
  have rw: "rows (store ?w') = rows (store w)
             @ [\<lparr>msg_conversationId = currentConversationId (store w), msg_role = User,
                 msg_content = prompt req, msg_model = None, msg_metadata = None\<rparr>]"
    unfolding s by (simp add: addMessage_def savedRow_def userPromptMessage_def Let_def)
  have "rows (store ?w') \<noteq> rows (store w)"
    unfolding rw by simp
  then have "store ?w' \<noteq> store w" by auto
  with r s rw show ?thesis by blast
qed

theorem unsupported_strategy_still_writes_user_message_witness:
  "\<not> recognized (strategy (sampleRequest ''tournament'' None (Some True)))
   \<and> useContext (sampleRequest ''tournament'' None (Some True)) \<noteq> Some False
   \<and> fst (orchestrate replyingProvider rejectingParse
            (sampleRequest ''tournament'' None (Some True)) emptyWorld)
       = Inl (StrategyError ''Unknown orchestration strategy: tournament'')
   \<and> rows (store (snd (orchestrate replyingProvider rejectingParse
        (sampleRequest ''tournament'' None (Some True)) emptyWorld)))
       = [\<lparr>msg_conversationId = ''c1'', msg_role = User, msg_content = ''X'',
           msg_model = None, msg_metadata = None\<rparr>]"
proof -
  have h1: "\<not> recognized (strategy (sampleRequest ''tournament'' None (Some True)))"
    by (simp add: recognized_def sampleRequest_def Sequential_def Parallel_def Debate_def
        Consensus_def Specialist_def)
  have h2: "useContext (sampleRequest ''tournament'' None (Some True)) \<noteq> Some False"
    by (simp add: sampleRequest_def)
  from unsupported_strategy_still_writes_user_message[OF h1 h2, of replyingProvider
      rejectingParse emptyWorld]
  show ?thesis using h1 h2
    by (simp add: sampleRequest_def emptyWorld_def emptyStore_def addMessage_def
        savedRow_def userPromptMessage_def Let_def)
qed

section \<open>No context, no write\<close>

text \<open>
  Claim C9. For every request with \<open>useContext\<close> explicitly false, an \<open>orchestrate\<close>
  run, under any of the five strategies and whether it returns or fails, performs no
  \<open>addMessage\<close>: not for the user prompt, not for a model's response, not for the
  synthesis, consensus or conclusion text. The store is unchanged by the call, and
  repeating the same call on the resulting world leaves it unchanged again.
\<close>

theorem no_context_no_store_write:
  assumes "useContext req = Some False"
  shows "store (snd (orchestrate P jsonParse req w)) = store w
       \<and> messagesAdded (events (snd (orchestrate P jsonParse req w))) = messagesAdded (events w)
       \<and> store (snd (orchestrate P jsonParse req (snd (orchestrate P jsonParse req w))))
           = store w
       \<and> messagesAdded (events (snd (orchestrate P jsonParse req
            (snd (orchestrate P jsonParse req w))))) = messagesAdded (events w)"
proof -
  have n: "\<not> usesContext req" using assms by (simp add: usesContext_def)
  let ?w1 = "snd (orchestrate P jsonParse req w)"
  let ?w2 = "snd (orchestrate P jsonParse req ?w1)"
  have a: "sameContext w ?w1"
    using orchestrate_same[OF n, of P jsonParse w "fst (orchestrate P jsonParse req w)" ?w1]
    by simp
  have b: "sameContext ?w1 ?w2"
    using orchestrate_same[OF n, of P jsonParse ?w1 "fst (orchestrate P jsonParse req ?w1)" ?w2]
    by simp
  from a b show ?thesis by (simp add: sameContext_def)
qed

theorem no_context_no_store_write_witness:
  "useContext (sampleRequest ''consensus'' (Some [''A'', ''B'']) (Some False)) = Some False
   \<and> store (snd (orchestrate replyingProvider rejectingParse
        (sampleRequest ''consensus'' (Some [''A'', ''B'']) (Some False)) emptyWorld))
       = emptyStore
   \<and> messagesAdded (events (snd (orchestrate replyingProvider rejectingParse
        (sampleRequest ''consensus'' (Some [''A'', ''B'']) (Some False)) emptyWorld))) = []"
proof -
  have h: "useContext (sampleRequest ''consensus'' (Some [''A'', ''B'']) (Some False)) = Some False"
    by (simp add: sampleRequest_def)
  from no_context_no_store_write[OF h, of replyingProvider rejectingParse emptyWorld]
  show ?thesis using h by (simp add: emptyWorld_def)
qed

section \<open>Specialist: the selection\<close>

lemma addPrimary_length:
  "length sp \<le> n \<Longrightarrow> length (addPrimary p av n xs sp) \<le> n"
  by (induction xs arbitrary: sp) auto

lemma addSecondary_length:
  "length sp \<le> n \<Longrightarrow> length (addSecondary s av n xs sp) \<le> n"
  by (induction xs arbitrary: sp) auto

lemma addPrimary_available:
  "set (map sp_model sp) \<subseteq> set av \<Longrightarrow>
   set (map sp_model (addPrimary p av n xs sp)) \<subseteq> set av"
  by (induction xs arbitrary: sp) auto

lemma addSecondary_available:
  "set (map sp_model sp) \<subseteq> set av \<Longrightarrow>
   set (map sp_model (addSecondary s av n xs sp)) \<subseteq> set av"
  by (induction xs arbitrary: sp) auto

lemma addPrimary_no_match:
  "set xs \<inter> set av = {} \<Longrightarrow> addPrimary p av n xs sp = sp"
  by (induction xs arbitrary: sp) auto

lemma addSecondary_no_match:
  "set xs \<inter> set av = {} \<Longrightarrow> addSecondary s av n xs sp = sp"
  by (induction xs arbitrary: sp) auto

lemma addFallback_length:
  "length sp \<le> n \<Longrightarrow> 0 < n \<Longrightarrow> length (addFallback av sp) \<le> n"
  by (auto simp: addFallback_def split: list.splits)

lemma addFallback_available:
  "set (map sp_model sp) \<subseteq> set av \<Longrightarrow> set (map sp_model (addFallback av sp)) \<subseteq> set av"
  by (auto simp: addFallback_def split: list.splits)

lemma addFallback_nonempty: "av \<noteq> [] \<Longrightarrow> addFallback av sp \<noteq> []"
  by (auto simp: addFallback_def split: list.splits)

lemma numModels_pos: "0 < numModels c"
  by (simp add: numModels_def)

lemma lookupSpecialists_own:
  "key \<notin> set objectPrototypeKeys \<Longrightarrow> \<exists>l. lookupSpecialists key fb = Some l"
  by (simp add: lookupSpecialists_def split: option.splits)

lemma selectSpecialists_Inr:
  "selectSpecialists (Fields (Some p) (Some s) c) ms = Inr sps \<longleftrightarrow>
   (\<exists>ps ss. lookupSpecialists p [''openai/gpt-4o''] = Some ps \<and> lookupSpecialists s [] = Some ss
      \<and> sps = addFallback ms (addSecondary s ms (numModels c) ss
                (addPrimary p ms (numModels c) ps [])))"
  by (auto simp: selectSpecialists_def Let_def split: option.splits)

text \<open>
  Where the selection returns, the number of selected models is at most 3 for
  complexity \<open>high\<close>, 2 for \<open>medium\<close> and 1 for any other value, every selected model is
  in the list of available models, and when no primary and no secondary candidate is in
  that list and the list is not empty, the one selected model is the first of the list,
  with reason "Default model". The selection returns when both categories have a string
  form that is not a name inherited from \<open>Object.prototype\<close>.
\<close>

lemma selectSpecialists_bounded_and_available:
  "(p \<notin> set objectPrototypeKeys \<and> s \<notin> set objectPrototypeKeys
      \<longrightarrow> (\<exists>sps. selectSpecialists (Fields (Some p) (Some s) c) ms = Inr sps))
   \<and> (\<forall>sps. selectSpecialists (Fields (Some p) (Some s) c) ms = Inr sps \<longrightarrow>
        length sps \<le> (if c = Some ''high'' then 3 else if c = Some ''medium'' then 2 else 1)
        \<and> set (map sp_model sps) \<subseteq> set ms
        \<and> (\<forall>ps ss. lookupSpecialists p [''openai/gpt-4o''] = Some ps
              \<and> lookupSpecialists s [] = Some ss
              \<and> set ps \<inter> set ms = {} \<and> set ss \<inter> set ms = {} \<and> ms \<noteq> []
              \<longrightarrow> sps = [\<lparr>sp_model = hd ms, sp_reason = ''Default model''\<rparr>]))"
proof (intro conjI impI allI)
  assume "p \<notin> set objectPrototypeKeys \<and> s \<notin> set objectPrototypeKeys"
  then obtain ps ss where "lookupSpecialists p [''openai/gpt-4o''] = Some ps"
    and "lookupSpecialists s [] = Some ss"
    using lookupSpecialists_own by blast
  then show "\<exists>sps. selectSpecialists (Fields (Some p) (Some s) c) ms = Inr sps"
    by (simp add: selectSpecialists_Inr)
next
  fix sps assume a: "selectSpecialists (Fields (Some p) (Some s) c) ms = Inr sps"
  then obtain ps ss where
    sps: "sps = addFallback ms (addSecondary s ms (numModels c) ss
                (addPrimary p ms (numModels c) ps []))"
    by (auto simp: selectSpecialists_Inr)
  have "length sps \<le> numModels c"
    unfolding sps
    by (intro addFallback_length addSecondary_length addPrimary_length numModels_pos) simp
  then show "length sps \<le> (if c = Some ''high'' then 3 else if c = Some ''medium'' then 2 else 1)"
    by (simp add: numModels_def)
  show "set (map sp_model sps) \<subseteq> set ms"
    unfolding sps
    by (intro addFallback_available addSecondary_available addPrimary_available) simp
next
  fix sps ps ss
  assume a: "selectSpecialists (Fields (Some p) (Some s) c) ms = Inr sps"
    and b: "lookupSpecialists p [''openai/gpt-4o''] = Some ps
              \<and> lookupSpecialists s [] = Some ss
              \<and> set ps \<inter> set ms = {} \<and> set ss \<inter> set ms = {} \<and> ms \<noteq> []"
  from a b have "sps = addFallback ms []"
    by (simp add: selectSpecialists_Inr addPrimary_no_match addSecondary_no_match)
  with b show "sps = [\<lparr>sp_model = hd ms, sp_reason = ''Default model''\<rparr>]"
    by (cases ms) (simp_all add: addFallback_def)
qed

text \<open>
  Claim C8. The claim asks, for every classification outcome, for at most \<open>N\<close>
  selected models, all of them available, and for exactly one selected model, the first
  of the list with reason "Default model", when no primary and no secondary candidate
  is available and the list is not empty. The code misses a case. For the primary
  category \<open>constructor\<close> the table has no entry and no candidate is available, yet
  \<open>specialistMap[key]\<close> finds the member inherited from \<open>Object.prototype\<close>, the
  \<open>|| ['openai/gpt-4o']\<close> keeps it, and the loop over it throws: nothing is selected
  and the Specialist run fails with a \<open>TypeError\<close>, where the claim has the first
  available model selected.
\<close>

theorem selectSpecialists_throws_on_inherited_category:
  \<open>map_of specialistMap ''constructor'' = None
   \<and> lookupSpecialists ''constructor'' [''openai/gpt-4o''] = None
   \<and> selectSpecialists (Fields (Some ''constructor'') (Some ''general'') (Some ''low''))
         [''A'', ''B'']
       = Inl (TypeError ''primarySpecialists is not iterable'')
   \<and> fst (orchestrate
            (classifierAnswering
               ''{"primary":"constructor","secondary":"general","complexity":"low"}'')
            literalParse (sampleRequest ''specialist'' (Some [''A'', ''B'']) (Some False))
            emptyWorld)
       = Inl (TypeError ''primarySpecialists is not iterable'')\<close>
  by code_simp

section \<open>Specialist: the classification\<close>

text \<open>
  Claim C7, as amended. In the Specialist strategy, if the classification call
  succeeds but its response is not valid JSON (\<open>JSON.parse\<close> throws), the engine
  proceeds with the default classification primary = coding, secondary = general,
  complexity = medium: the classification phase returns it and raises no error, the
  routing runs on it, and the selection on it does not throw. If the response is valid
  JSON, the classification phase returns the parsed value as it is, whatever its shape,
  and the routing runs on that value.
\<close>

theorem classification_is_parsed_or_default:
  assumes "P (events w) (Complete (analysisPrompt (prompt req)) (fixedModel ''openai/gpt-4o-mini''))
             = Inr response"
  shows "(jsonParse response = None \<longrightarrow>
            analyzePromptType P jsonParse (prompt req) w
              = (Inr (Fields (Some ''coding'') (Some ''general'') (Some ''medium'')),
                 w\<lparr>events := events w @ [ProviderCalled (Complete (analysisPrompt (prompt req))
                                             (fixedModel ''openai/gpt-4o-mini''))]\<rparr>)
          \<and> specialistRouting P jsonParse req ms w
              = routeSpecialists P req
                  (Fields (Some ''coding'') (Some ''general'') (Some ''medium'')) ms
                  (w\<lparr>events := events w @ [ProviderCalled (Complete (analysisPrompt (prompt req))
                                             (fixedModel ''openai/gpt-4o-mini''))]\<rparr>)
          \<and> (\<exists>sps. selectSpecialists
                       (Fields (Some ''coding'') (Some ''general'') (Some ''medium'')) ms
                     = Inr sps))
       \<and> (\<forall>a. jsonParse response = Some a \<longrightarrow>
            analyzePromptType P jsonParse (prompt req) w
              = (Inr a,
                 w\<lparr>events := events w @ [ProviderCalled (Complete (analysisPrompt (prompt req))
                                             (fixedModel ''openai/gpt-4o-mini''))]\<rparr>)
          \<and> specialistRouting P jsonParse req ms w
              = routeSpecialists P req a ms
                  (w\<lparr>events := events w @ [ProviderCalled (Complete (analysisPrompt (prompt req))
                                             (fixedModel ''openai/gpt-4o-mini''))]\<rparr>))"
proof -
  let ?w1 = "w\<lparr>events := events w @ [ProviderCalled (Complete (analysisPrompt (prompt req))
                                          (fixedModel ''openai/gpt-4o-mini''))]\<rparr>"
  let ?d = "Fields (Some ''coding'') (Some ''general'') (Some ''medium'')"
  have a: "analyzePromptType P jsonParse (prompt req) w = (Inr ?d, ?w1)"
    if "jsonParse response = None"
    using assms that
    by (simp add: analyzePromptType_def provider_complete_def provider_call_def
        defaultAnalysis_def)
  have b: "specialistRouting P jsonParse req ms w = routeSpecialists P req ?d ms ?w1"
    if "jsonParse response = None"
    by (simp add: specialistRouting_def a[OF that])
  have "''coding'' \<notin> set objectPrototypeKeys" "''general'' \<notin> set objectPrototypeKeys"
    by (simp_all add: objectPrototypeKeys_def)
  then obtain ps ss where "lookupSpecialists ''coding'' [''openai/gpt-4o''] = Some ps"
    "lookupSpecialists ''general'' [] = Some ss"
    using lookupSpecialists_own by blast
  then have c: "\<exists>sps. selectSpecialists ?d ms = Inr sps"
    by (simp add: selectSpecialists_Inr)
  have d: "analyzePromptType P jsonParse (prompt req) w = (Inr x, ?w1)"
    if "jsonParse response = Some x" for x
    using assms that
    by (simp add: analyzePromptType_def provider_complete_def provider_call_def)
  have e: "specialistRouting P jsonParse req ms w = routeSpecialists P req x ms ?w1"
    if "jsonParse response = Some x" for x
    by (simp add: specialistRouting_def d[OF that])
  from a b c d e show ?thesis by blast
qed

theorem classification_is_parsed_or_default_witness:
  "classifierAnswering ''coding, I think'' (events emptyWorld)
       (Complete (analysisPrompt (prompt specialistRequest)) (fixedModel ''openai/gpt-4o-mini''))
     = Inr ''coding, I think''
   \<and> literalParse ''coding, I think'' = None
   \<and> fst (analyzePromptType (classifierAnswering ''coding, I think'') literalParse
            (prompt specialistRequest) emptyWorld)
       = Inr (Fields (Some ''coding'') (Some ''general'') (Some ''medium''))
   \<and> classifierAnswering ''42'' (events emptyWorld)
       (Complete (analysisPrompt (prompt specialistRequest)) (fixedModel ''openai/gpt-4o-mini''))
     = Inr ''42''
   \<and> literalParse ''42'' = Some (Fields (Some ''undefined'') (Some ''undefined'') None)
   \<and> fst (analyzePromptType (classifierAnswering ''42'') literalParse
            (prompt specialistRequest) emptyWorld)
       = Inr (Fields (Some ''undefined'') (Some ''undefined'') None)"
proof -
  have h1: "classifierAnswering ''coding, I think'' (events emptyWorld)
       (Complete (analysisPrompt (prompt specialistRequest)) (fixedModel ''openai/gpt-4o-mini''))
     = Inr ''coding, I think''"
    by (simp add: classifierAnswering_def modelOf_def fixedModel_def)
  have h2: "literalParse ''coding, I think'' = None"
    by (simp add: literalParse_def)
  have h3: "classifierAnswering ''42'' (events emptyWorld)
       (Complete (analysisPrompt (prompt specialistRequest)) (fixedModel ''openai/gpt-4o-mini''))
     = Inr ''42''"
    by (simp add: classifierAnswering_def modelOf_def fixedModel_def)
  have h4: "literalParse ''42'' = Some (Fields (Some ''undefined'') (Some ''undefined'') None)"
    by (simp add: literalParse_def)
  from classification_is_parsed_or_default[of "classifierAnswering ''coding, I think''"
      emptyWorld specialistRequest "''coding, I think''" literalParse, OF h1]
    classification_is_parsed_or_default[of "classifierAnswering ''42''"
      emptyWorld specialistRequest "''42''" literalParse, OF h3]
  show ?thesis using h1 h2 h3 h4 by simp
qed

text \<open>
  The claim as stated fails. The response \<open>42\<close> is not the expected object, yet the
  engine does not proceed with the default classification: it routes on the parsed
  value and selects one model, where the default classification selects two. The
  response \<open>null\<close> is not the expected object either, and the run fails with a
  \<open>TypeError\<close>.
\<close>

theorem classification_other_shape_counterexample:
  "fst (analyzePromptType (classifierAnswering ''42'') literalParse ''X'' emptyWorld)
     = Inr (Fields (Some ''undefined'') (Some ''undefined'') None)
   \<and> fst (orchestrate (classifierAnswering ''42'') literalParse specialistRequest emptyWorld)
       = Inr \<lparr>res_strategy = ''specialist'', res_models = [''anthropic/claude-opus-4''],
              res_responses = Some [\<lparr>pr_model = ''anthropic/claude-opus-4'',
                                      pr_response = ''reply of anthropic/claude-opus-4''\<rparr>],
              res_rounds = None, res_synthesis = None, res_consensus = None,
              res_conclusion = None, res_conversationId = Some ''c1''\<rparr>
   \<and> fst (routeSpecialists (classifierAnswering ''42'') specialistRequest
            (Fields (Some ''coding'') (Some ''general'') (Some ''medium''))
            [''anthropic/claude-opus-4'', ''deepseek/deepseek-r1''] emptyWorld)
       = Inr \<lparr>res_strategy = ''specialist'',
              res_models = [''anthropic/claude-opus-4'', ''deepseek/deepseek-r1''],
              res_responses = Some [\<lparr>pr_model = ''anthropic/claude-opus-4'',
                                      pr_response = ''reply of anthropic/claude-opus-4''\<rparr>,
                                    \<lparr>pr_model = ''deepseek/deepseek-r1'',
                                      pr_response = ''reply of deepseek/deepseek-r1''\<rparr>],
              res_rounds = None, res_synthesis = None, res_consensus = None,
              res_conclusion = None, res_conversationId = None\<rparr>
   \<and> fst (orchestrate (classifierAnswering ''null'') literalParse specialistRequest emptyWorld)
       = Inl (TypeError ''cannot read properties of null'')"
  by code_simp

section \<open>Dispatch: the model list\<close>

lemma sequentialProcessing_models:
  "sequentialProcessing P req ms w = (Inr r, w') \<Longrightarrow> res_models r = ms"
  by (auto simp: sequentialProcessing_def split: prod.splits sum.splits)

lemma parallelProcessing_models:
  "parallelProcessing P req ms w = (Inr r, w') \<Longrightarrow> res_models r = ms"
  by (auto simp: parallelProcessing_def Let_def split: prod.splits sum.splits)

lemma debateMode_models:
  "debateMode P req ms w = (Inr r, w') \<Longrightarrow> res_models r = ms"
  by (auto simp: debateMode_def Let_def split: prod.splits sum.splits)

lemma consensusMode_models:
  "consensusMode P req ms w = (Inr r, w') \<Longrightarrow> res_models r = ms"
  by (auto simp: consensusMode_def Let_def split: prod.splits sum.splits)

lemma routeSpecialists_models:
  "routeSpecialists P req a ms w = (Inr r, w') \<Longrightarrow>
   \<exists>sps. selectSpecialists a ms = Inr sps \<and> res_models r = map sp_model sps"
  by (auto simp: routeSpecialists_def split: prod.splits sum.splits)

lemma specialistRouting_models:
  "specialistRouting P jp req ms w = (Inr r, w') \<Longrightarrow>
   \<exists>a sps. selectSpecialists a ms = Inr sps \<and> res_models r = map sp_model sps"
  by (auto simp: specialistRouting_def split: prod.splits sum.splits)
    (blast dest: routeSpecialists_models)

lemma addPrimary_none_available: "addPrimary p [] n xs sp = sp"
  by (induction xs arbitrary: sp) auto

lemma addSecondary_none_available: "addSecondary s [] n xs sp = sp"
  by (induction xs arbitrary: sp) auto

lemma selectSpecialists_none_available: "selectSpecialists a [] = Inr sps \<Longrightarrow> sps = []"
  by (auto simp: selectSpecialists_def Let_def addFallback_def addPrimary_none_available
      addSecondary_none_available split: Analysis.splits option.splits)

lemma selectSpecialists_some_available:
  "selectSpecialists a ms = Inr sps \<Longrightarrow> ms \<noteq> [] \<Longrightarrow> sps \<noteq> []"
  by (auto simp: selectSpecialists_def Let_def addFallback_nonempty
      split: Analysis.splits option.splits)

lemma dispatch_models:
  assumes "dispatch P jp req ms w = (Inr r, w')"
  shows "(ms \<noteq> [] \<longrightarrow> res_models r \<noteq> []) \<and> (ms = [] \<longrightarrow> res_models r = [])
       \<and> (strategy req \<noteq> Specialist \<longrightarrow> res_models r = ms)"
proof -
  consider (seq) "sequentialProcessing P req ms w = (Inr r, w')"
    | (par) "parallelProcessing P req ms w = (Inr r, w')"
    | (deb) "debateMode P req ms w = (Inr r, w')"
    | (con) "consensusMode P req ms w = (Inr r, w')"
    | (spe) "strategy req = Specialist" "specialistRouting P jp req ms w = (Inr r, w')"
    using assms by (auto simp: dispatch_def split: if_splits)
  then show ?thesis
  proof cases
    case seq then show ?thesis by (auto dest: sequentialProcessing_models)
  next
    case par then show ?thesis by (auto dest: parallelProcessing_models)
  next
    case deb then show ?thesis by (auto dest: debateMode_models)
  next
    case con then show ?thesis by (auto dest: consensusMode_models)
  next
    case spe
    then obtain a sps where s: "selectSpecialists a ms = Inr sps" "res_models r = map sp_model sps"
      by (auto dest: specialistRouting_models)
    then show ?thesis using spe(1)
      by (auto dest: selectSpecialists_none_available selectSpecialists_some_available)
  qed
qed

lemma orchestrate_Inr:
  "fst (orchestrate P jp req w) = Inr r \<Longrightarrow>
   \<exists>r0 w'. dispatch P jp req (selectModels req) (addUserMessage req w) = (Inr r0, w')
      \<and> res_models r = res_models r0"
  by (auto simp: orchestrate_def Let_def split: prod.splits sum.splits)

text \<open>
  Claim C1, as amended. The default model set, the first three entries of the ranked
  list, is substituted when the \<open>models\<close> field is absent; the result's \<open>models\<close> is
  then non-empty for all five strategies. A \<open>models\<close> field supplied as an empty list is
  not replaced: the empty list is the model list of the run, and the result's \<open>models\<close> is
  empty for all five strategies.
\<close>

theorem default_models_only_when_models_absent:
  "(models req = None \<longrightarrow>
      selectModels req = [''deepseek/deepseek-v3'', ''deepseek/deepseek-r1-0528'',
                          ''anthropic/claude-sonnet-4'']
      \<and> (\<forall>r. fst (orchestrate P jsonParse req w) = Inr r \<longrightarrow> res_models r \<noteq> []))
   \<and> (models req = Some [] \<longrightarrow>
      selectModels req = []
      \<and> (\<forall>r. fst (orchestrate P jsonParse req w) = Inr r \<longrightarrow> res_models r = []))"
proof (intro conjI impI allI)
  assume "models req = None"
  then show "selectModels req = [''deepseek/deepseek-v3'', ''deepseek/deepseek-r1-0528'',
                          ''anthropic/claude-sonnet-4'']"
    by (simp add: selectModels_def defaultModels_def)
next
  fix r assume "models req = None" and "fst (orchestrate P jsonParse req w) = Inr r"
  moreover have "selectModels req \<noteq> []" if "models req = None"
    using that by (simp add: selectModels_def defaultModels_def)
  ultimately show "res_models r \<noteq> []"
    by (auto dest!: orchestrate_Inr dispatch_models)
next
  assume "models req = Some []"
  then show "selectModels req = []" by (simp add: selectModels_def)
next
  fix r assume "models req = Some []" and "fst (orchestrate P jsonParse req w) = Inr r"
  moreover have "selectModels req = []" if "models req = Some []"
    using that by (simp add: selectModels_def)
  ultimately show "res_models r = []"
    by (auto dest!: orchestrate_Inr dispatch_models)
qed

text \<open>
  The claim as stated fails: for a Sequential request whose \<open>models\<close> is the empty
  list, \<open>orchestrate\<close> returns a result whose \<open>models\<close> is empty.
\<close>

theorem empty_models_counterexample:
  "models (sampleRequest ''sequential'' (Some []) (Some False)) = Some []
   \<and> fst (orchestrate replyingProvider rejectingParse
            (sampleRequest ''sequential'' (Some []) (Some False)) emptyWorld)
       = Inr \<lparr>res_strategy = ''sequential'', res_models = [], res_responses = Some [],
              res_rounds = None, res_synthesis = None, res_consensus = None,
              res_conclusion = None, res_conversationId = Some ''c1''\<rparr>"
  by code_simp

theorem default_models_only_when_models_absent_witness:
  "models (sampleRequest ''specialist'' None (Some False)) = None
   \<and> fst (orchestrate replyingProvider rejectingParse
            (sampleRequest ''specialist'' None (Some False)) emptyWorld)
       = Inr \<lparr>res_strategy = ''specialist'', res_models = [''deepseek/deepseek-v3''],
              res_responses = Some [\<lparr>pr_model = ''deepseek/deepseek-v3'',
                                      pr_response = ''reply of deepseek/deepseek-v3''\<rparr>],
              res_rounds = None, res_synthesis = None, res_consensus = None,
              res_conclusion = None, res_conversationId = Some ''c1''\<rparr>
   \<and> models (sampleRequest ''debate'' (Some []) (Some False)) = Some []
   \<and> fst (orchestrate replyingProvider rejectingParse
            (sampleRequest ''debate'' (Some []) (Some False)) emptyWorld)
       = Inr \<lparr>res_strategy = ''debate'', res_models = [], res_responses = None,
              res_rounds = Some [\<lparr>dr_round = 1, dr_responses = []\<rparr>,
                                 \<lparr>dr_round = 2, dr_responses = []\<rparr>,
                                 \<lparr>dr_round = 3, dr_responses = []\<rparr>],
              res_synthesis = None, res_consensus = None,
              res_conclusion = Some ''reply of openai/gpt-4o'',
              res_conversationId = Some ''c1''\<rparr>"
proof -
  have h1: "models (sampleRequest ''specialist'' None (Some False)) = None"
    by (simp add: sampleRequest_def)
  have h2: "fst (orchestrate replyingProvider rejectingParse
            (sampleRequest ''specialist'' None (Some False)) emptyWorld)
       = Inr \<lparr>res_strategy = ''specialist'', res_models = [''deepseek/deepseek-v3''],
              res_responses = Some [\<lparr>pr_model = ''deepseek/deepseek-v3'',
                                      pr_response = ''reply of deepseek/deepseek-v3''\<rparr>],
              res_rounds = None, res_synthesis = None, res_consensus = None,
              res_conclusion = None, res_conversationId = Some ''c1''\<rparr>"
    by code_simp
  have h3: "models (sampleRequest ''debate'' (Some []) (Some False)) = Some []"
    by (simp add: sampleRequest_def)
  have h4: "fst (orchestrate replyingProvider rejectingParse
            (sampleRequest ''debate'' (Some []) (Some False)) emptyWorld)
       = Inr \<lparr>res_strategy = ''debate'', res_models = [], res_responses = None,
              res_rounds = Some [\<lparr>dr_round = 1, dr_responses = []\<rparr>,
                                 \<lparr>dr_round = 2, dr_responses = []\<rparr>,
                                 \<lparr>dr_round = 3, dr_responses = []\<rparr>],
              res_synthesis = None, res_consensus = None,
              res_conclusion = Some ''reply of openai/gpt-4o'',
              res_conversationId = Some ''c1''\<rparr>"
    by code_simp
  from default_models_only_when_models_absent[of "sampleRequest ''specialist'' None (Some False)"
      replyingProvider rejectingParse emptyWorld]
    default_models_only_when_models_absent[of "sampleRequest ''debate'' (Some []) (Some False)"
      replyingProvider rejectingParse emptyWorld]
  show ?thesis using h1 h2 h3 h4 by simp
qed

section \<open>Parallel\<close>

lemma orchestrate_parallel:
  "strategy req = Parallel \<Longrightarrow>
   orchestrate P jp req w =
     (case parallelProcessing P req (selectModels req) (addUserMessage req w) of
        (Inl e, w2) \<Rightarrow> (Inl e, w2)
      | (Inr result, w2) \<Rightarrow>
          (Inr (result\<lparr>res_conversationId := Some (getSummary (store w2))\<rparr>), w2))"
  by (simp add: orchestrate_def dispatch_def Let_def Parallel_def Sequential_def)

lemma parallelProcessing_synthesis_fails:
  "parallelSynthesisOutcome P req ms w = Inl e \<Longrightarrow>
   fst (parallelProcessing P req ms w) = Inl (ProviderError e)"
  by (auto simp: parallelSynthesisOutcome_def parallelProcessing_def synthesizeResponses_def
      provider_complete_def provider_call_def Let_def split: prod.splits sum.splits)

lemma parallelProcessing_synthesis_succeeds:
  "parallelSynthesisOutcome P req ms w = Inr t \<Longrightarrow>
   fst (parallelProcessing P req ms w) =
     Inr \<lparr>res_strategy = Parallel, res_models = ms,
          res_responses = Some (filterBoolean (map settled (fst (parallelCollect P req ms w)))),
          res_rounds = None, res_synthesis = Some t, res_consensus = None,
          res_conclusion = None, res_conversationId = None\<rparr>"
  by (auto simp: parallelSynthesisOutcome_def parallelProcessing_def synthesizeResponses_def
      provider_complete_def provider_call_def Let_def split: prod.splits sum.splits)

text \<open>
  Claim C2, as amended. In the Parallel strategy, if the synthesis call fails,
  \<open>orchestrate\<close> fails with the error of that call, whether the per-model calls
  succeeded or not: the failure is propagated to the caller and there is no result.
\<close>

theorem synthesis_failure_is_propagated:
  assumes "strategy req = Parallel"
    and "parallelSynthesisOutcome P req (selectModels req) (addUserMessage req w) = Inl e"
  shows "fst (orchestrate P jsonParse req w) = Inl (ProviderError e)"
  using parallelProcessing_synthesis_fails[OF assms(2)]
  by (auto simp: orchestrate_parallel[OF assms(1)] split: prod.splits sum.splits)

text \<open>
  The claim as stated fails: with both per-model calls answered and the synthesis call
  failing, \<open>orchestrate\<close> returns the error, not a result without synthesis.
\<close>

theorem synthesis_failure_counterexample:
  "strategy (sampleRequest ''parallel'' (Some [''A'', ''B'']) (Some False)) = Parallel
   \<and> fst (parallelCollect completeDownProvider
            (sampleRequest ''parallel'' (Some [''A'', ''B'']) (Some False)) [''A'', ''B''] emptyWorld)
       = [(''A'', Inr ''reply of A''), (''B'', Inr ''reply of B'')]
   \<and> fst (orchestrate completeDownProvider rejectingParse
            (sampleRequest ''parallel'' (Some [''A'', ''B'']) (Some False)) emptyWorld)
       = Inl (ProviderError ''service unavailable'')"
  by code_simp

theorem synthesis_failure_is_propagated_witness:
  "strategy (sampleRequest ''parallel'' (Some [''A'', ''B'']) None) = Parallel
   \<and> parallelSynthesisOutcome completeDownProvider
        (sampleRequest ''parallel'' (Some [''A'', ''B'']) None)
        (selectModels (sampleRequest ''parallel'' (Some [''A'', ''B'']) None))
        (addUserMessage (sampleRequest ''parallel'' (Some [''A'', ''B'']) None) emptyWorld)
       = Inl ''service unavailable''
   \<and> fst (orchestrate completeDownProvider rejectingParse
            (sampleRequest ''parallel'' (Some [''A'', ''B'']) None) emptyWorld)
       = Inl (ProviderError ''service unavailable'')"
proof -
  have h1: "strategy (sampleRequest ''parallel'' (Some [''A'', ''B'']) None) = Parallel"
    by (simp add: sampleRequest_def Parallel_def)
  have h2: "parallelSynthesisOutcome completeDownProvider
        (sampleRequest ''parallel'' (Some [''A'', ''B'']) None)
        (selectModels (sampleRequest ''parallel'' (Some [''A'', ''B'']) None))
        (addUserMessage (sampleRequest ''parallel'' (Some [''A'', ''B'']) None) emptyWorld)
       = Inl ''service unavailable''"
    by code_simp
  from synthesis_failure_is_propagated[OF h1 h2, of rejectingParse]
  show ?thesis using h1 h2 by simp
qed

lemma provider_completeWithContext_eq:
  "provider_completeWithContext P msgs opts w
     = (asProviderError (P (events w) (CompleteWithContext msgs opts)),
        w\<lparr>events := events w @ [ProviderCalled (CompleteWithContext msgs opts)]\<rparr>)"
  by (simp add: provider_completeWithContext_def provider_call_def asProviderError_def)

lemma parallelCalls_outcomes:
  "parallelCalls P req history ms w = (outs, w') \<Longrightarrow>
   length outs = length ms
   \<and> events w' = events w @ map (ProviderCalled \<circ> parallelCall req history) ms
   \<and> (\<forall>i<length ms. outs ! i =
        (ms ! i, asProviderError
           (P (events w @ map (ProviderCalled \<circ> parallelCall req history) (take i ms))
              (parallelCall req history (ms ! i)))))"
proof (induction ms arbitrary: outs w w')
  case Nil
  then show ?case by simp
next
  case (Cons m ms)
  let ?w1 = "w\<lparr>events := events w @ [ProviderCalled (parallelCall req history m)]\<rparr>"
  obtain rs w2 where rec: "parallelCalls P req history ms ?w1 = (rs, w2)"
    by fastforce
  from Cons.prems rec have outs: "outs = (m, asProviderError (P (events w) (parallelCall req history m))) # rs"
    and w': "w' = w2"
    by (simp_all add: provider_completeWithContext_eq parallelCall_def Let_def)
  note ih = Cons.IH[OF rec]
  have "outs ! i = ((m # ms) ! i, asProviderError
           (P (events w @ map (ProviderCalled \<circ> parallelCall req history) (take i (m # ms)))
              (parallelCall req history ((m # ms) ! i))))" if "i < length (m # ms)" for i
  proof (cases i)
    case 0
    then show ?thesis by (simp add: outs)
  next
    case (Suc j)
    with that have "j < length ms" by simp
    with ih have "rs ! j = (ms ! j, asProviderError
           (P (events ?w1 @ map (ProviderCalled \<circ> parallelCall req history) (take j ms))
              (parallelCall req history (ms ! j))))" by blast
    then show ?thesis by (simp add: outs Suc)
  qed
  moreover have "length outs = length (m # ms)" using ih by (simp add: outs)
  moreover have "events w' = events w @ map (ProviderCalled \<circ> parallelCall req history) (m # ms)"
    using ih by (simp add: w')
  ultimately show ?case by blast
qed

lemma filterBoolean_simps [simp]:
  "filterBoolean [] = []"
  "filterBoolean (None # xs) = filterBoolean xs"
  "filterBoolean (Some x # xs) = x # filterBoolean xs"
  by (simp_all add: filterBoolean_def map_filter_simps)

lemma settled_successes:
  "map (\<lambda>r. (pr_model r, (Inr (pr_response r) :: error + string))) (filterBoolean (map settled outs))
     = filter (\<lambda>out. \<not> isl (snd out)) outs"
proof (induction outs)
  case Nil
  then show ?case by simp
next
  case (Cons out outs)
  obtain m r where out: "out = (m, r)" by (cases out)
  show ?case using Cons.IH by (cases r) (simp_all add: out)
qed

lemma settled_length:
  "length (filterBoolean (map settled outs))
     = length outs - length (filter (\<lambda>out. isl (snd out)) outs)"
proof (induction outs)
  case Nil
  then show ?case by simp
next
  case (Cons out outs)
  obtain m r where out: "out = (m, r)" by (cases out)
  have le: "length (filter (\<lambda>out. isl (snd out)) outs) \<le> length outs"
    by (rule length_filter_le)
  show ?case using Cons.IH le by (cases r) (simp_all add: out Suc_diff_le)
qed

lemma parallelCollect_eq:
  "readHistory req w = (history, w0) \<Longrightarrow>
   parallelCollect P req ms w = parallelCalls P req history ms w0"
  by (simp add: parallelCollect_def)

lemma parallelSynthesisOutcome_cases:
  "fst (parallelProcessing P req ms w) =
    (case parallelSynthesisOutcome P req ms w of
       Inl e \<Rightarrow> Inl (ProviderError e)
     | Inr t \<Rightarrow>
        Inr \<lparr>res_strategy = Parallel, res_models = ms,
          res_responses = Some (filterBoolean (map settled (fst (parallelCollect P req ms w)))),
          res_rounds = None, res_synthesis = Some t, res_consensus = None,
          res_conclusion = None, res_conversationId = None\<rparr>)"
  by (auto simp: parallelProcessing_synthesis_fails parallelProcessing_synthesis_succeeds
      split: sum.splits)

lemma orchestrate_parallel_result:
  assumes "strategy req = Parallel"
  shows "fst (orchestrate P jp req w) =
    (case parallelSynthesisOutcome P req (selectModels req) (addUserMessage req w) of
       Inl e \<Rightarrow> Inl (ProviderError e)
     | Inr t \<Rightarrow>
        Inr \<lparr>res_strategy = Parallel, res_models = selectModels req,
          res_responses = Some (filterBoolean (map settled
             (fst (parallelCollect P req (selectModels req) (addUserMessage req w))))),
          res_rounds = None, res_synthesis = Some t, res_consensus = None,
          res_conclusion = None,
          res_conversationId = Some (getSummary (store (snd (orchestrate P jp req w))))\<rparr>)"
  using parallelSynthesisOutcome_cases[of P req "selectModels req" "addUserMessage req w"]
  by (auto simp: orchestrate_parallel[OF assms] split: prod.splits sum.splits)

text \<open>
  Claim C5. In the Parallel strategy over the \<open>N\<close> models of the run there is one
  outcome per model, in input order, and the outcome of the \<open>i\<close>-th model is the
  provider's answer to that model's call. The result's \<open>responses\<close> are the successful
  outcomes, in input order, each with the model and the text of its call; so they are
  \<open>N\<close> entries when every call succeeds and \<open>N - K\<close> when \<open>K\<close> calls fail. No failure
  of a per-model call leaves \<open>orchestrate\<close>: when \<open>orchestrate\<close> fails, the error is
  that of the synthesis call.
\<close>

theorem parallel_responses_are_the_successful_calls:
  assumes "strategy req = Parallel"
    and "readHistory req (addUserMessage req w) = (history, w0)"
    and "parallelCalls P req history (selectModels req) w0 = (outcomes, w1)"
  shows "length outcomes = length (selectModels req)
    \<and> (\<forall>i<length (selectModels req). outcomes ! i =
          (selectModels req ! i, asProviderError
             (P (events w0 @ map (ProviderCalled \<circ> parallelCall req history)
                                 (take i (selectModels req)))
                (parallelCall req history (selectModels req ! i)))))
    \<and> (\<forall>r. fst (orchestrate P jsonParse req w) = Inr r \<longrightarrow>
          res_responses r = Some (filterBoolean (map settled outcomes)))
    \<and> map (\<lambda>r. (pr_model r, Inr (pr_response r))) (filterBoolean (map settled outcomes))
        = filter (\<lambda>out. \<not> isl (snd out)) outcomes
    \<and> length (filterBoolean (map settled outcomes))
        = length (selectModels req) - length (filter (\<lambda>out. isl (snd out)) outcomes)
    \<and> (\<forall>e. fst (orchestrate P jsonParse req w) = Inl e \<longrightarrow>
          (\<exists>msg. e = ProviderError msg
             \<and> parallelSynthesisOutcome P req (selectModels req) (addUserMessage req w) = Inl msg))"
proof -
  note po = parallelCalls_outcomes[OF assms(3)]
  have pc: "parallelCollect P req (selectModels req) (addUserMessage req w) = (outcomes, w1)"
    using assms(2,3) by (simp add: parallelCollect_eq)
  note orr = orchestrate_parallel_result[OF assms(1), of P jsonParse w]
  have 1: "length outcomes = length (selectModels req)" using po by blast
  have 2: "\<forall>i<length (selectModels req). outcomes ! i =
          (selectModels req ! i, asProviderError
             (P (events w0 @ map (ProviderCalled \<circ> parallelCall req history)
                                 (take i (selectModels req)))
                (parallelCall req history (selectModels req ! i))))"
    using po by blast
  have 3: "\<forall>r. fst (orchestrate P jsonParse req w) = Inr r \<longrightarrow>
          res_responses r = Some (filterBoolean (map settled outcomes))"
    using orr by (auto simp: pc split: sum.splits)
  have 4: "map (\<lambda>r. (pr_model r, Inr (pr_response r))) (filterBoolean (map settled outcomes))
        = filter (\<lambda>out. \<not> isl (snd out)) outcomes"
    by (rule settled_successes)
  have 5: "length (filterBoolean (map settled outcomes))
        = length (selectModels req) - length (filter (\<lambda>out. isl (snd out)) outcomes)"
    using settled_length[of outcomes] 1 by simp
  have 6: "\<forall>e. fst (orchestrate P jsonParse req w) = Inl e \<longrightarrow>
          (\<exists>msg. e = ProviderError msg
             \<and> parallelSynthesisOutcome P req (selectModels req) (addUserMessage req w) = Inl msg)"
    using orr by (auto split: sum.splits)
  from 1 2 3 4 5 6 show ?thesis by blast
qed

theorem parallel_responses_are_the_successful_calls_witness:
  "strategy threeModels = Parallel
   \<and> readHistory threeModels (addUserMessage threeModels emptyWorld) = ([], emptyWorld)
   \<and> parallelCalls flakyProvider threeModels [] (selectModels threeModels) emptyWorld
       = ([(''A'', Inr ''reply of A''), (''B'', Inl (ProviderError ''timeout'')),
           (''C'', Inr ''reply of C'')],
          emptyWorld\<lparr>events := map (ProviderCalled \<circ> parallelCall threeModels [])
                                   [''A'', ''B'', ''C'']\<rparr>)
   \<and> fst (orchestrate flakyProvider rejectingParse threeModels emptyWorld)
       = Inr \<lparr>res_strategy = ''parallel'', res_models = [''A'', ''B'', ''C''],
              res_responses = Some [\<lparr>pr_model = ''A'', pr_response = ''reply of A''\<rparr>,
                                    \<lparr>pr_model = ''C'', pr_response = ''reply of C''\<rparr>],
              res_rounds = None,
              res_synthesis = Some ''reply of anthropic/claude-3.5-sonnet'',
              res_consensus = None, res_conclusion = None,
              res_conversationId = Some ''c1''\<rparr>
   \<and> length (filterBoolean (map settled
        [(''A'', Inr ''reply of A''), (''B'', Inl (ProviderError ''timeout'')),
         (''C'', Inr ''reply of C'')])) = 3 - 1"
proof -
  have h1: "strategy threeModels = Parallel"
    by (simp add: threeModels_def sampleRequest_def Parallel_def)
  have h2: "readHistory threeModels (addUserMessage threeModels emptyWorld) = ([], emptyWorld)"
    by (simp add: threeModels_def sampleRequest_def readHistory_def addUserMessage_def
        usesContext_def)
  have h3: "parallelCalls flakyProvider threeModels [] (selectModels threeModels) emptyWorld
       = ([(''A'', Inr ''reply of A''), (''B'', Inl (ProviderError ''timeout'')),
           (''C'', Inr ''reply of C'')],
          emptyWorld\<lparr>events := map (ProviderCalled \<circ> parallelCall threeModels [])
                                   [''A'', ''B'', ''C'']\<rparr>)"
    by (simp add: threeModels_def sampleRequest_def selectModels_def emptyWorld_def
        provider_completeWithContext_eq parallelCall_def flakyProvider_def modelOf_def
        withModel_def asProviderError_def)
  have h4: "fst (orchestrate flakyProvider rejectingParse threeModels emptyWorld)
       = Inr \<lparr>res_strategy = ''parallel'', res_models = [''A'', ''B'', ''C''],
              res_responses = Some [\<lparr>pr_model = ''A'', pr_response = ''reply of A''\<rparr>,
                                    \<lparr>pr_model = ''C'', pr_response = ''reply of C''\<rparr>],
              res_rounds = None,
              res_synthesis = Some ''reply of anthropic/claude-3.5-sonnet'',
              res_consensus = None, res_conclusion = None,
              res_conversationId = Some ''c1''\<rparr>"
    by code_simp
  from parallel_responses_are_the_successful_calls[OF h1 h2 h3, of rejectingParse]
  show ?thesis using h1 h2 h3 h4 by (simp add: threeModels_def sampleRequest_def selectModels_def)
qed

section \<open>Sequential\<close>

lemma addMessage_rows:
  "rows (addMessage m s) = rows s @ [savedRow (currentConversationId s) m]"
  "currentConversationId (addMessage m s) = currentConversationId s"
  by (simp_all add: addMessage_def Let_def)

lemma orchestrate_sequential:
  "strategy req = Sequential \<Longrightarrow>
   orchestrate P jp req w =
     (case sequentialProcessing P req (selectModels req) (addUserMessage req w) of
        (Inl e, w2) \<Rightarrow> (Inl e, w2)
      | (Inr result, w2) \<Rightarrow>
          (Inr (result\<lparr>res_conversationId := Some (getSummary (store w2))\<rparr>), w2))"
  by (simp add: orchestrate_def dispatch_def Let_def)

lemma getConversationHistory_events:
  "contextManager_getConversationHistory w = (history, w0) \<Longrightarrow> events w0 = events w"
  by (auto simp: contextManager_getConversationHistory_def split: prod.splits)

lemma getConversationHistory_rows:
  "contextManager_getConversationHistory w = (history, w0) \<Longrightarrow>
   rows (store w0) = rows (store w)
   \<and> currentConversationId (store w0) = currentConversationId (store w)"
  by (auto simp: contextManager_getConversationHistory_def getConversationHistory_def Let_def
      split: prod.splits if_splits)

lemma sequentialCall_first:
  "sequentialCall req history cp new (m # ms) 0
     = CompleteWithContext (map toContextMessage history @ [userMessage cp]) (withModel req m)"
  by (simp add: sequentialCall_def currentPromptAt_def)

lemma sequentialCall_shift:
  "sequentialCall req history cp (r # new) (m # ms) (Suc j)
     = sequentialCall req history
         (refinementPrompt (prompt req) (pr_model r) (pr_response r)) new ms j"
  by (cases j) (simp_all add: sequentialCall_def currentPromptAt_def)

lemma sequentialEvents_messages:
  "messagesAdded (sequentialEvents req history cp new) = map responseMessage new"
  by (induction new arbitrary: cp) (simp_all add: responseMessage_def)

lemma sequentialEvents_calls:
  "map pr_model new = take (length new) ms \<Longrightarrow>
   providerCalls (sequentialEvents req history cp new)
     = map (sequentialCall req history cp new ms) [0..<length new]"
proof (induction new arbitrary: cp ms)
  case Nil
  then show ?case by simp
next
  case (Cons r new)
  from Cons.prems obtain m ms' where ms: "ms = m # ms'" and m: "pr_model r = m"
    and rest: "map pr_model new = take (length new) ms'"
    by (cases ms) auto
  have "providerCalls (sequentialEvents req history cp (r # new))
      = sequentialCall req history cp (r # new) ms 0
        # providerCalls (sequentialEvents req history
            (refinementPrompt (prompt req) (pr_model r) (pr_response r)) new)"
    by (simp add: ms m sequentialCall_first)
  also have "providerCalls (sequentialEvents req history
            (refinementPrompt (prompt req) (pr_model r) (pr_response r)) new)
      = map (sequentialCall req history
            (refinementPrompt (prompt req) (pr_model r) (pr_response r)) new ms') [0..<length new]"
    by (rule Cons.IH[OF rest])
  also have "\<dots> = map (\<lambda>i. sequentialCall req history cp (r # new) ms (Suc i)) [0..<length new]"
    by (simp add: ms sequentialCall_shift)
  finally show ?case by (simp add: map_upt_Suc del: upt_Suc)
qed

lemma sequentialLoop_fail:
  assumes "P (events w) (CompleteWithContext (map toContextMessage history @ [userMessage cp]) (withModel req m)) = Inl msg"
  shows "sequentialLoop P req history (m # ms) cp rs w
     = (Inl (ProviderError msg),
        w\<lparr>events := events w @ [ProviderCalled (CompleteWithContext (map toContextMessage history @ [userMessage cp]) (withModel req m))]\<rparr>)"
  using assms by (simp add: provider_completeWithContext_eq asProviderError_def)

lemma sequentialLoop_next:
  assumes "P (events w) (CompleteWithContext (map toContextMessage history @ [userMessage cp]) (withModel req m)) = Inr response"
    and "usesContext req"
  shows "sequentialLoop P req history (m # ms) cp rs w
     = sequentialLoop P req history ms (refinementPrompt (prompt req) m response)
         (rs @ [\<lparr>pr_model = m, pr_response = response\<rparr>])
         (contextManager_addMessage (responseMessage \<lparr>pr_model = m, pr_response = response\<rparr>)
            (w\<lparr>events := events w @ [ProviderCalled (CompleteWithContext (map toContextMessage history @ [userMessage cp]) (withModel req m))]\<rparr>))"
  using assms
  by (simp add: provider_completeWithContext_eq asProviderError_def Let_def responseMessage_def)

lemma sequentialLoop_run:
  assumes u: "usesContext req"
  shows "\<exists>new.
      length new \<le> length ms
    \<and> map pr_model new = take (length new) ms
    \<and> (\<forall>i<length new.
          P (events w @ sequentialEvents req history cp (take i new))
            (sequentialCall req history cp new ms i) = Inr (pr_response (new ! i)))
    \<and> currentConversationId (store (snd (sequentialLoop P req history ms cp rs w)))
        = currentConversationId (store w)
    \<and> rows (store (snd (sequentialLoop P req history ms cp rs w)))
        = rows (store w) @ map (savedRow (currentConversationId (store w))) (map responseMessage new)
    \<and> (if length new = length ms
        then fst (sequentialLoop P req history ms cp rs w) = Inr (rs @ new)
           \<and> events (snd (sequentialLoop P req history ms cp rs w))
               = events w @ sequentialEvents req history cp new
        else (\<exists>msg. P (events w @ sequentialEvents req history cp new)
                       (sequentialCall req history cp new ms (length new)) = Inl msg
                \<and> fst (sequentialLoop P req history ms cp rs w) = Inl (ProviderError msg))
           \<and> events (snd (sequentialLoop P req history ms cp rs w))
               = events w @ sequentialEvents req history cp new
                 @ [ProviderCalled (sequentialCall req history cp new ms (length new))])"
proof (induction ms arbitrary: cp rs w)
  case Nil
  show ?case by (rule exI[of _ "[]"]) simp
next
  case (Cons m ms)
  let ?call = "CompleteWithContext (map toContextMessage history @ [userMessage cp]) (withModel req m)"
  let ?w1 = "w\<lparr>events := events w @ [ProviderCalled ?call]\<rparr>"
  show ?case
  proof (cases "P (events w) ?call")
    case (Inl msg)
    have L: "sequentialLoop P req history (m # ms) cp rs w = (Inl (ProviderError msg), ?w1)"
      by (rule sequentialLoop_fail[where P=P and w=w and history=history and cp=cp and req=req and m=m, OF Inl])
    show ?thesis
      by (rule exI[of _ "[]"], unfold L) (simp add: sequentialCall_first Inl)
  next
    case (Inr response)
    let ?r = "\<lparr>pr_model = m, pr_response = response\<rparr>"
    let ?cp' = "refinementPrompt (prompt req) m response"
    let ?w2 = "contextManager_addMessage (responseMessage ?r) ?w1"
    let ?L' = "sequentialLoop P req history ms ?cp' (rs @ [?r]) ?w2"
    have L: "sequentialLoop P req history (m # ms) cp rs w = ?L'"
      by (rule sequentialLoop_next[where P=P and w=w and history=history and cp=cp and req=req and m=m, OF Inr u])
    have ev2: "events ?w2 = events w @ [ProviderCalled ?call, MessageAdded (responseMessage ?r)]"
      by (simp add: contextManager_addMessage_def)
    have cid2: "currentConversationId (store ?w2) = currentConversationId (store w)"
      by (simp add: contextManager_addMessage_def addMessage_rows)
    have rows2: "rows (store ?w2)
        = rows (store w) @ [savedRow (currentConversationId (store w)) (responseMessage ?r)]"
      by (simp add: contextManager_addMessage_def addMessage_rows)
    from Cons.IH[where cp="?cp'" and rs="rs @ [?r]" and w="?w2"] obtain new where
      n1: "length new \<le> length ms"
      and n2: "map pr_model new = take (length new) ms"
      and n3: "\<forall>i<length new.
          P (events ?w2 @ sequentialEvents req history ?cp' (take i new))
            (sequentialCall req history ?cp' new ms i) = Inr (pr_response (new ! i))"
      and n4: "currentConversationId (store (snd ?L')) = currentConversationId (store ?w2)"
      and n5: "rows (store (snd ?L'))
        = rows (store ?w2) @ map (savedRow (currentConversationId (store ?w2))) (map responseMessage new)"
      and n6: "if length new = length ms
        then fst ?L' = Inr ((rs @ [?r]) @ new)
           \<and> events (snd ?L') = events ?w2 @ sequentialEvents req history ?cp' new
        else (\<exists>msg. P (events ?w2 @ sequentialEvents req history ?cp' new)
                       (sequentialCall req history ?cp' new ms (length new)) = Inl msg
                \<and> fst ?L' = Inl (ProviderError msg))
           \<and> events (snd ?L') = events ?w2 @ sequentialEvents req history ?cp' new
                 @ [ProviderCalled (sequentialCall req history ?cp' new ms (length new))]"
      by (elim exE conjE)
    have se: "sequentialEvents req history cp (?r # xs)
        = [ProviderCalled ?call, MessageAdded (responseMessage ?r)]
          @ sequentialEvents req history ?cp' xs" for xs
      by (simp add: responseMessage_def)
    have sh: "sequentialCall req history cp (?r # new) (m # ms) (Suc j)
        = sequentialCall req history ?cp' new ms j" for j
      using sequentialCall_shift[of req history cp ?r new m ms j] by simp
    have c1: "length (?r # new) \<le> length (m # ms)" using n1 by simp
    have c2: "map pr_model (?r # new) = take (length (?r # new)) (m # ms)" using n2 by simp
    have c3: "\<forall>i<length (?r # new).
          P (events w @ sequentialEvents req history cp (take i (?r # new)))
            (sequentialCall req history cp (?r # new) (m # ms) i) = Inr (pr_response ((?r # new) ! i))"
    proof (intro allI impI)
      fix i assume i: "i < length (?r # new)"
      show "P (events w @ sequentialEvents req history cp (take i (?r # new)))
            (sequentialCall req history cp (?r # new) (m # ms) i) = Inr (pr_response ((?r # new) ! i))"
      proof (cases i)
        case 0
        then show ?thesis by (simp add: sequentialCall_first Inr)
      next
        case (Suc j)
        with i have "j < length new" by simp
        with n3 have "P (events ?w2 @ sequentialEvents req history ?cp' (take j new))
            (sequentialCall req history ?cp' new ms j) = Inr (pr_response (new ! j))" by blast
        then show ?thesis
          unfolding Suc sh ev2 by (simp add: responseMessage_def)
      qed
    qed
    have c4: "currentConversationId (store (snd (sequentialLoop P req history (m # ms) cp rs w)))
        = currentConversationId (store w)"
      unfolding L n4 cid2 by (rule refl)
    have c5: "rows (store (snd (sequentialLoop P req history (m # ms) cp rs w)))
        = rows (store w) @ map (savedRow (currentConversationId (store w))) (map responseMessage (?r # new))"
      unfolding L n5 cid2 rows2 by simp
    have c6: "if length (?r # new) = length (m # ms)
        then fst (sequentialLoop P req history (m # ms) cp rs w) = Inr (rs @ (?r # new))
           \<and> events (snd (sequentialLoop P req history (m # ms) cp rs w))
               = events w @ sequentialEvents req history cp (?r # new)
        else (\<exists>msg. P (events w @ sequentialEvents req history cp (?r # new))
                       (sequentialCall req history cp (?r # new) (m # ms) (length (?r # new))) = Inl msg
                \<and> fst (sequentialLoop P req history (m # ms) cp rs w) = Inl (ProviderError msg))
           \<and> events (snd (sequentialLoop P req history (m # ms) cp rs w))
               = events w @ sequentialEvents req history cp (?r # new)
                 @ [ProviderCalled (sequentialCall req history cp (?r # new) (m # ms) (length (?r # new)))]"
    proof (cases "length new = length ms")
      case True
      with n6 have "fst ?L' = Inr ((rs @ [?r]) @ new)"
        and "events (snd ?L') = events ?w2 @ sequentialEvents req history ?cp' new"
        by simp_all
      then show ?thesis using True unfolding L se ev2 by simp
    next
      case False
      with n6 obtain msg where
        f1: "P (events ?w2 @ sequentialEvents req history ?cp' new)
                       (sequentialCall req history ?cp' new ms (length new)) = Inl msg"
        and f2: "fst ?L' = Inl (ProviderError msg)"
        and f3: "events (snd ?L') = events ?w2 @ sequentialEvents req history ?cp' new
                 @ [ProviderCalled (sequentialCall req history ?cp' new ms (length new))]"
        by auto
      have g1: "P (events w @ sequentialEvents req history cp (?r # new))
                  (sequentialCall req history cp (?r # new) (m # ms) (length (?r # new))) = Inl msg"
        using f1 unfolding se ev2 by (simp add: sh)
      have g3: "events (snd ?L') = events w @ sequentialEvents req history cp (?r # new)
                 @ [ProviderCalled (sequentialCall req history cp (?r # new) (m # ms) (length (?r # new)))]"
        using f3 unfolding se ev2 by (simp add: sh)
      show ?thesis using False g1 f2 g3 unfolding L by auto
    qed
    show ?thesis
      by (intro exI[of _ "?r # new"] conjI c1 c2 c3 c4 c5 c6)
  qed
qed

lemma orchestrate_sequential_loop:
  assumes "strategy req = Sequential" and "usesContext req"
    and "contextManager_getConversationHistory (addUserMessage req w) = (history, w0)"
  shows "snd (orchestrate P jp req w)
           = snd (sequentialLoop P req history (selectModels req) (prompt req) [] w0)"
    and "fst (orchestrate P jp req w)
           = (case fst (sequentialLoop P req history (selectModels req) (prompt req) [] w0) of
                Inl e \<Rightarrow> Inl e
              | Inr responses \<Rightarrow>
                  Inr \<lparr>res_strategy = Sequential, res_models = selectModels req,
                       res_responses = Some responses, res_rounds = None, res_synthesis = None,
                       res_consensus = None, res_conclusion = None,
                       res_conversationId = Some (currentConversationId (store
                         (snd (sequentialLoop P req history (selectModels req) (prompt req) [] w0))))\<rparr>)"
proof -
  obtain r1 w1 where L: "sequentialLoop P req history (selectModels req) (prompt req) [] w0 = (r1, w1)"
    by fastforce
  have rh: "readHistory req (addUserMessage req w) = (history, w0)"
    using assms(2,3) by (simp add: readHistory_def)
  have sp: "sequentialProcessing P req (selectModels req) (addUserMessage req w)
      = (case r1 of Inl e \<Rightarrow> (Inl e, w1)
         | Inr responses \<Rightarrow>
            (Inr \<lparr>res_strategy = Sequential, res_models = selectModels req,
                  res_responses = Some responses, res_rounds = None, res_synthesis = None,
                  res_consensus = None, res_conclusion = None, res_conversationId = None\<rparr>, w1))"
    by (cases r1) (simp_all add: sequentialProcessing_def rh L)
  show "snd (orchestrate P jp req w)
           = snd (sequentialLoop P req history (selectModels req) (prompt req) [] w0)"
    by (cases r1) (simp_all add: orchestrate_sequential[OF assms(1)] sp L)
  show "fst (orchestrate P jp req w)
           = (case fst (sequentialLoop P req history (selectModels req) (prompt req) [] w0) of
                Inl e \<Rightarrow> Inl e
              | Inr responses \<Rightarrow>
                  Inr \<lparr>res_strategy = Sequential, res_models = selectModels req,
                       res_responses = Some responses, res_rounds = None, res_synthesis = None,
                       res_consensus = None, res_conclusion = None,
                       res_conversationId = Some (currentConversationId (store
                         (snd (sequentialLoop P req history (selectModels req) (prompt req) [] w0))))\<rparr>)"
    by (cases r1) (simp_all add: orchestrate_sequential[OF assms(1)] sp L getSummary_def)
qed

text \<open>
  Claim C3, as amended. In the Sequential strategy with \<open>useContext\<close> not false,
  the models are called in list order until a call fails. Each response is the
  provider's answer to that model's call, and it is appended to the Context Store
  immediately after it is produced and before the next model is called: the rows added
  by the run are the prompt and then the responses, in call order. The conversation
  history is read once, before the first model is called, and every model is sent that
  same history: the message list sent to the \<open>i\<close>-th model is exactly that history
  followed by one user message, which is the original prompt for the first model and,
  for each later model, the refinement prompt built from the original prompt and the id
  and the response of model \<open>i - 1\<close>. When every call is answered the result holds all the
  responses; when a call fails the run fails with that call's error, after the
  responses before it have been stored.
\<close>

theorem sequential_history_is_read_once:
  assumes "strategy req = Sequential" and "useContext req \<noteq> Some False"
    and "contextManager_getConversationHistory (addUserMessage req w) = (history, w0)"
  shows "\<exists>responses.
      length responses \<le> length (selectModels req)
    \<and> map pr_model responses = take (length responses) (selectModels req)
    \<and> (\<forall>i<length responses.
          P (events w @ [MessageAdded (userPromptMessage req)]
               @ sequentialEvents req history (prompt req) (take i responses))
            (sequentialCall req history (prompt req) responses (selectModels req) i)
          = Inr (pr_response (responses ! i)))
    \<and> providerCalls (sequentialEvents req history (prompt req) responses)
        = map (sequentialCall req history (prompt req) responses (selectModels req))
            [0..<length responses]
    \<and> messagesAdded (sequentialEvents req history (prompt req) responses)
        = map responseMessage responses
    \<and> rows (store (snd (orchestrate P jsonParse req w)))
        = rows (store w)
          @ map (savedRow (currentConversationId (store w)))
              (userPromptMessage req # map responseMessage responses)
    \<and> (if length responses = length (selectModels req)
        then fst (orchestrate P jsonParse req w)
               = Inr \<lparr>res_strategy = Sequential, res_models = selectModels req,
                      res_responses = Some responses, res_rounds = None, res_synthesis = None,
                      res_consensus = None, res_conclusion = None,
                      res_conversationId = Some (currentConversationId (store w))\<rparr>
           \<and> events (snd (orchestrate P jsonParse req w))
               = events w @ [MessageAdded (userPromptMessage req)]
                 @ sequentialEvents req history (prompt req) responses
        else (\<exists>msg. P (events w @ [MessageAdded (userPromptMessage req)]
                          @ sequentialEvents req history (prompt req) responses)
                       (sequentialCall req history (prompt req) responses (selectModels req)
                          (length responses)) = Inl msg
                \<and> fst (orchestrate P jsonParse req w) = Inl (ProviderError msg))
           \<and> events (snd (orchestrate P jsonParse req w))
               = events w @ [MessageAdded (userPromptMessage req)]
                 @ sequentialEvents req history (prompt req) responses
                 @ [ProviderCalled (sequentialCall req history (prompt req) responses
                      (selectModels req) (length responses))])"
proof -
  let ?ms = "selectModels req"
  let ?L = "sequentialLoop P req history ?ms (prompt req) [] w0"
  let ?base = "events w @ [MessageAdded (userPromptMessage req)]"
  let ?cid = "currentConversationId (store w)"
  have u: "usesContext req" using assms(2) by (simp add: usesContext_def)
  note ol = orchestrate_sequential_loop[OF assms(1) u assms(3), of P jsonParse]
  have e0: "events w0 = ?base"
    using getConversationHistory_events[OF assms(3)] u
    by (simp add: addUserMessage_def contextManager_addMessage_def)
  have r0: "rows (store w0) = rows (store w) @ [savedRow ?cid (userPromptMessage req)]"
    and c0: "currentConversationId (store w0) = ?cid"
    using getConversationHistory_rows[OF assms(3)] u
    by (simp_all add: addUserMessage_def contextManager_addMessage_def addMessage_rows)
  from sequentialLoop_run[OF u, of ?ms P w0 history "prompt req" "[]"] obtain responses where
    n1: "length responses \<le> length ?ms"
    and n2: "map pr_model responses = take (length responses) ?ms"
    and n3: "\<forall>i<length responses.
          P (events w0 @ sequentialEvents req history (prompt req) (take i responses))
            (sequentialCall req history (prompt req) responses ?ms i)
          = Inr (pr_response (responses ! i))"
    and n4: "currentConversationId (store (snd ?L)) = currentConversationId (store w0)"
    and n5: "rows (store (snd ?L))
        = rows (store w0) @ map (savedRow (currentConversationId (store w0))) (map responseMessage responses)"
    and n6: "if length responses = length ?ms
        then fst ?L = Inr ([] @ responses)
           \<and> events (snd ?L) = events w0 @ sequentialEvents req history (prompt req) responses
        else (\<exists>msg. P (events w0 @ sequentialEvents req history (prompt req) responses)
                       (sequentialCall req history (prompt req) responses ?ms (length responses)) = Inl msg
                \<and> fst ?L = Inl (ProviderError msg))
           \<and> events (snd ?L) = events w0 @ sequentialEvents req history (prompt req) responses
                 @ [ProviderCalled (sequentialCall req history (prompt req) responses ?ms (length responses))]"
    by (elim exE conjE)
  have c3: "\<forall>i<length responses.
          P (events w @ [MessageAdded (userPromptMessage req)] @ sequentialEvents req history (prompt req) (take i responses))
            (sequentialCall req history (prompt req) responses ?ms i)
          = Inr (pr_response (responses ! i))"
    using n3 unfolding e0 by simp
  have c4: "providerCalls (sequentialEvents req history (prompt req) responses)
        = map (sequentialCall req history (prompt req) responses ?ms) [0..<length responses]"
    by (rule sequentialEvents_calls[OF n2])
  have c5: "messagesAdded (sequentialEvents req history (prompt req) responses)
        = map responseMessage responses"
    by (rule sequentialEvents_messages)
  have c6: "rows (store (snd (orchestrate P jsonParse req w)))
        = rows (store w) @ map (savedRow ?cid) (userPromptMessage req # map responseMessage responses)"
    unfolding ol(1) n5 r0 c0 by simp
  have c7: "if length responses = length ?ms
        then fst (orchestrate P jsonParse req w)
               = Inr \<lparr>res_strategy = Sequential, res_models = ?ms,
                      res_responses = Some responses, res_rounds = None, res_synthesis = None,
                      res_consensus = None, res_conclusion = None,
                      res_conversationId = Some ?cid\<rparr>
           \<and> events (snd (orchestrate P jsonParse req w))
               = events w @ [MessageAdded (userPromptMessage req)] @ sequentialEvents req history (prompt req) responses
        else (\<exists>msg. P (events w @ [MessageAdded (userPromptMessage req)] @ sequentialEvents req history (prompt req) responses)
                       (sequentialCall req history (prompt req) responses ?ms (length responses)) = Inl msg
                \<and> fst (orchestrate P jsonParse req w) = Inl (ProviderError msg))
           \<and> events (snd (orchestrate P jsonParse req w))
               = events w @ [MessageAdded (userPromptMessage req)] @ sequentialEvents req history (prompt req) responses
                 @ [ProviderCalled (sequentialCall req history (prompt req) responses ?ms (length responses))]"
  proof (cases "length responses = length ?ms")
    case True
    with n6 have "fst ?L = Inr responses"
      and "events (snd ?L) = events w0 @ sequentialEvents req history (prompt req) responses"
      by simp_all
    then show ?thesis using True unfolding ol e0 n4 c0 by simp
  next
    case False
    with n6 obtain msg where
      f1: "P (events w0 @ sequentialEvents req history (prompt req) responses)
                       (sequentialCall req history (prompt req) responses ?ms (length responses)) = Inl msg"
      and f2: "fst ?L = Inl (ProviderError msg)"
      and f3: "events (snd ?L) = events w0 @ sequentialEvents req history (prompt req) responses
                 @ [ProviderCalled (sequentialCall req history (prompt req) responses ?ms (length responses))]"
      by auto
    have g1: "P (events w @ [MessageAdded (userPromptMessage req)] @ sequentialEvents req history (prompt req) responses)
                (sequentialCall req history (prompt req) responses ?ms (length responses)) = Inl msg"
      using f1 unfolding e0 by simp
    have g2: "fst (orchestrate P jsonParse req w) = Inl (ProviderError msg)"
      unfolding ol f2 by simp
    have g3: "events (snd (orchestrate P jsonParse req w))
               = events w @ [MessageAdded (userPromptMessage req)] @ sequentialEvents req history (prompt req) responses
                 @ [ProviderCalled (sequentialCall req history (prompt req) responses ?ms (length responses))]"
      unfolding ol f3 e0 by simp
    show ?thesis using False g1 g2 g3 by auto
  qed
  show ?thesis
    by (intro exI[of _ responses] conjI n1 n2 c3 c4 c5 c6 c7)
qed

theorem sequential_history_is_read_once_witness:
  "strategy abcRequest = Sequential \<and> useContext abcRequest \<noteq> Some False
   \<and> contextManager_getConversationHistory (addUserMessage abcRequest emptyWorld)
       = ([promptRow], addUserMessage abcRequest emptyWorld)
   \<and> fst (orchestrate replyingProvider rejectingParse abcRequest emptyWorld)
       = Inr \<lparr>res_strategy = ''sequential'', res_models = [''A'', ''B'', ''C''],
              res_responses = Some [\<lparr>pr_model = ''A'', pr_response = ''reply of A''\<rparr>,
                                    \<lparr>pr_model = ''B'', pr_response = ''reply of B''\<rparr>,
                                    \<lparr>pr_model = ''C'', pr_response = ''reply of C''\<rparr>],
              res_rounds = None, res_synthesis = None, res_consensus = None,
              res_conclusion = None, res_conversationId = Some ''c1''\<rparr>
   \<and> events (snd (orchestrate replyingProvider rejectingParse abcRequest emptyWorld))
       = [MessageAdded (userPromptMessage abcRequest)]
         @ sequentialEvents abcRequest [promptRow] ''X''
             [\<lparr>pr_model = ''A'', pr_response = ''reply of A''\<rparr>,
              \<lparr>pr_model = ''B'', pr_response = ''reply of B''\<rparr>,
              \<lparr>pr_model = ''C'', pr_response = ''reply of C''\<rparr>]"
proof -
  let ?rs = "[\<lparr>pr_model = ''A'', pr_response = ''reply of A''\<rparr>,
              \<lparr>pr_model = ''B'', pr_response = ''reply of B''\<rparr>,
              \<lparr>pr_model = ''C'', pr_response = ''reply of C''\<rparr>]"
  have h1: "strategy abcRequest = Sequential"
    by (simp add: abcRequest_def sampleRequest_def Sequential_def)
  have h2: "useContext abcRequest \<noteq> Some False"
    by (simp add: abcRequest_def sampleRequest_def)
  have h3: "contextManager_getConversationHistory (addUserMessage abcRequest emptyWorld)
       = ([promptRow], addUserMessage abcRequest emptyWorld)"
    by (simp add: abcRequest_def sampleRequest_def contextManager_getConversationHistory_def
        getConversationHistory_def addUserMessage_def usesContext_def
        contextManager_addMessage_def addMessage_def savedRow_def userPromptMessage_def
        emptyWorld_def emptyStore_def promptRow_def Let_def)
  have h4: "fst (orchestrate replyingProvider rejectingParse abcRequest emptyWorld)
       = Inr \<lparr>res_strategy = ''sequential'', res_models = [''A'', ''B'', ''C''],
              res_responses = Some ?rs,
              res_rounds = None, res_synthesis = None, res_consensus = None,
              res_conclusion = None, res_conversationId = Some ''c1''\<rparr>"
    by code_simp
  have p: "prompt abcRequest = ''X''" and e: "events emptyWorld = []"
    by (simp_all add: abcRequest_def sampleRequest_def emptyWorld_def)
  from sequential_history_is_read_once[OF h1 h2 h3, of replyingProvider rejectingParse]
  obtain responses where
    c: "if length responses = length (selectModels abcRequest)
        then fst (orchestrate replyingProvider rejectingParse abcRequest emptyWorld)
               = Inr \<lparr>res_strategy = Sequential, res_models = selectModels abcRequest,
                      res_responses = Some responses, res_rounds = None, res_synthesis = None,
                      res_consensus = None, res_conclusion = None,
                      res_conversationId = Some (currentConversationId (store emptyWorld))\<rparr>
           \<and> events (snd (orchestrate replyingProvider rejectingParse abcRequest emptyWorld))
               = events emptyWorld @ [MessageAdded (userPromptMessage abcRequest)]
                 @ sequentialEvents abcRequest [promptRow] (prompt abcRequest) responses
        else (\<exists>msg. replyingProvider (events emptyWorld @ [MessageAdded (userPromptMessage abcRequest)]
                          @ sequentialEvents abcRequest [promptRow] (prompt abcRequest) responses)
                       (sequentialCall abcRequest [promptRow] (prompt abcRequest) responses
                          (selectModels abcRequest) (length responses)) = Inl msg
                \<and> fst (orchestrate replyingProvider rejectingParse abcRequest emptyWorld)
                    = Inl (ProviderError msg))
           \<and> events (snd (orchestrate replyingProvider rejectingParse abcRequest emptyWorld))
               = events emptyWorld @ [MessageAdded (userPromptMessage abcRequest)]
                 @ sequentialEvents abcRequest [promptRow] (prompt abcRequest) responses
                 @ [ProviderCalled (sequentialCall abcRequest [promptRow] (prompt abcRequest)
                      responses (selectModels abcRequest) (length responses))]"
    by (elim exE conjE)
  have "events (snd (orchestrate replyingProvider rejectingParse abcRequest emptyWorld))
       = [MessageAdded (userPromptMessage abcRequest)]
         @ sequentialEvents abcRequest [promptRow] ''X'' ?rs"
  proof (cases "length responses = length (selectModels abcRequest)")
    case True
    with c h4 have "responses = ?rs" by simp
    with c True show ?thesis by (simp add: p e)
  next
    case False
    with c h4 show ?thesis by auto
  qed
  with h1 h2 h3 h4 show ?thesis by simp
qed

text \<open>
  The claim as stated fails: with three models, the message list sent to the third
  model holds the history read before the first call and the refinement prompt built
  from the second model's response; the first model's response is in neither.
\<close>

theorem sequential_earlier_responses_counterexample:
  "strategy abcRequest = Sequential \<and> useContext abcRequest \<noteq> Some False
   \<and> res_responses (projr (fst (orchestrate replyingProvider rejectingParse abcRequest emptyWorld)))
       = Some [\<lparr>pr_model = ''A'', pr_response = ''reply of A''\<rparr>,
               \<lparr>pr_model = ''B'', pr_response = ''reply of B''\<rparr>,
               \<lparr>pr_model = ''C'', pr_response = ''reply of C''\<rparr>]
   \<and> providerCalls (events (snd (orchestrate replyingProvider rejectingParse abcRequest emptyWorld))) ! 2
       = CompleteWithContext
           [\<lparr>cm_role = User, cm_content = ''X''\<rparr>,
            \<lparr>cm_role = User, cm_content = refinementPrompt ''X'' ''B'' ''reply of B''\<rparr>]
           (withModel abcRequest ''C'')
   \<and> \<not> mentions ''reply of A''
           [\<lparr>cm_role = User, cm_content = ''X''\<rparr>,
            \<lparr>cm_role = User, cm_content = refinementPrompt ''X'' ''B'' ''reply of B''\<rparr>]"
  by code_simp

section \<open>Debate\<close>

lemma provider_complete_eq:
  "provider_complete P p opts w
     = (asProviderError (P (events w) (Complete p opts)),
        w\<lparr>events := events w @ [ProviderCalled (Complete p opts)]\<rparr>)"
  by (simp add: provider_complete_def provider_call_def asProviderError_def)

lemma debateRound_step:
  assumes "debateRound P req p (m # ms) acc w = (Inr rr, w')"
  shows "\<exists>response. P (events w) (Complete p (withModel req m)) = Inr response
     \<and> debateRound P req p ms (acc @ [\<lparr>pr_model = m, pr_response = response\<rparr>])
          (w\<lparr>events := events w @ [ProviderCalled (Complete p (withModel req m))]\<rparr>) = (Inr rr, w')"
proof (cases "P (events w) (Complete p (withModel req m))")
  case (Inl e)
  with assms show ?thesis by (simp add: provider_complete_eq asProviderError_def)
next
  case (Inr response)
  with assms show ?thesis by (simp add: provider_complete_eq asProviderError_def)
qed

lemma debateRound_events:
  "debateRound P req p ms acc w = (Inr rr, w') \<Longrightarrow>
   \<exists>new. rr = acc @ new \<and> map pr_model new = ms
     \<and> events w' = events w @ map (\<lambda>m. ProviderCalled (Complete p (withModel req m))) ms
     \<and> (\<forall>k<length ms.
           P (events w @ map (\<lambda>m. ProviderCalled (Complete p (withModel req m))) (take k ms))
             (Complete p (withModel req (ms ! k))) = Inr (pr_response (new ! k)))"
proof (induction ms arbitrary: acc w)
  case Nil
  then show ?case by simp
next
  case (Cons m ms)
  let ?w1 = "w\<lparr>events := events w @ [ProviderCalled (Complete p (withModel req m))]\<rparr>"
  from debateRound_step[OF Cons.prems] obtain response where
    ans: "P (events w) (Complete p (withModel req m)) = Inr response"
    and rec: "debateRound P req p ms (acc @ [\<lparr>pr_model = m, pr_response = response\<rparr>]) ?w1
                = (Inr rr, w')"
    by (elim exE conjE)
  let ?r = "\<lparr>pr_model = m, pr_response = response\<rparr>"
  from Cons.IH[OF rec] obtain new where
    n1: "rr = (acc @ [?r]) @ new" and n2: "map pr_model new = ms"
    and n3: "events w' = events ?w1 @ map (\<lambda>m. ProviderCalled (Complete p (withModel req m))) ms"
    and n4: "\<forall>k<length ms.
           P (events ?w1 @ map (\<lambda>m. ProviderCalled (Complete p (withModel req m))) (take k ms))
             (Complete p (withModel req (ms ! k))) = Inr (pr_response (new ! k))"
    by (elim exE conjE)
  have c1: "rr = acc @ (?r # new)" using n1 by simp
  have c2: "map pr_model (?r # new) = m # ms" using n2 by simp
  have c3: "events w' = events w @ map (\<lambda>m. ProviderCalled (Complete p (withModel req m))) (m # ms)"
    using n3 by simp
  have c4: "\<forall>k<length (m # ms).
           P (events w @ map (\<lambda>m. ProviderCalled (Complete p (withModel req m))) (take k (m # ms)))
             (Complete p (withModel req ((m # ms) ! k))) = Inr (pr_response ((?r # new) ! k))"
  proof (intro allI impI)
    fix k assume k: "k < length (m # ms)"
    show "P (events w @ map (\<lambda>m. ProviderCalled (Complete p (withModel req m))) (take k (m # ms)))
             (Complete p (withModel req ((m # ms) ! k))) = Inr (pr_response ((?r # new) ! k))"
    proof (cases k)
      case 0
      then show ?thesis by (simp add: ans)
    next
      case (Suc j)
      with k have "j < length ms" by simp
      with n4 have "P (events ?w1 @ map (\<lambda>m. ProviderCalled (Complete p (withModel req m))) (take j ms))
             (Complete p (withModel req (ms ! j))) = Inr (pr_response (new ! j))" by blast
      then show ?thesis by (simp add: Suc)
    qed
  qed
  show ?case by (intro exI[of _ "?r # new"] conjI c1 c2 c3 c4)
qed

lemma debateLoop_unfold_stop:
  "\<not> rnd < mx \<Longrightarrow> debateLoop P req ms mx rnd rounds w = (Inr rounds, w)"
  by (simp add: debateLoop.simps)

lemma debateLoop_step:
  assumes "rnd < mx" and "debateLoop P req ms mx rnd rounds w = (Inr out, w')"
  shows "\<exists>rr w1. debateRound P req (debatePrompt (prompt req) rounds rnd) ms [] w = (Inr rr, w1)
     \<and> debateLoop P req ms mx (rnd + 1) (rounds @ [\<lparr>dr_round = rnd + 1, dr_responses = rr\<rparr>]) w1
         = (Inr out, w')"
proof -
  obtain r1 w1 where c: "debateRound P req (debatePrompt (prompt req) rounds rnd) ms [] w = (r1, w1)"
    by fastforce
  show ?thesis
  proof (cases r1)
    case (Inl e)
    with assms c show ?thesis by (simp add: debateLoop.simps)
  next
    case (Inr rr)
    with assms c show ?thesis by (simp add: debateLoop.simps)
  qed
qed

lemma debateRoundCalls_here:
  "take i out = rounds \<Longrightarrow>
   debateRoundCalls req ms out i
     = map (\<lambda>m. Complete (debatePrompt (prompt req) rounds (int i)) (withModel req m)) ms"
  by (simp add: debateRoundCalls_def)

lemma debateLoop_rounds:
  "debateLoop P req ms mx rnd rounds w = (Inr out, w') \<Longrightarrow> rnd = int (length rounds) \<Longrightarrow>
   (\<exists>new. out = rounds @ new)
   \<and> int (length out) = max rnd mx
   \<and> (\<forall>i. length rounds \<le> i \<and> i < length out \<longrightarrow>
         dr_round (out ! i) = int i + 1 \<and> map pr_model (dr_responses (out ! i)) = ms)
   \<and> events w' = events w
        @ map ProviderCalled (concat (map (debateRoundCalls req ms out) [length rounds..<length out]))
   \<and> (\<forall>i k. length rounds \<le> i \<and> i < length out \<and> k < length ms \<longrightarrow>
         P (events w
              @ map ProviderCalled (concat (map (debateRoundCalls req ms out) [length rounds..<i])
                                    @ take k (debateRoundCalls req ms out i)))
           (debateRoundCalls req ms out i ! k)
         = Inr (pr_response (dr_responses (out ! i) ! k)))"
proof (induction P req ms mx rnd rounds w rule: debateLoop.induct)
  case (1 P req ms mx rnd rounds w)
  show ?case
  proof (cases "rnd < mx")
    case False
    with "1.prems" have "out = rounds" "w' = w"
      by (simp_all add: debateLoop_unfold_stop)
    with False "1.prems"(2) show ?thesis by auto
  next
    case True
    from debateLoop_step[OF True "1.prems"(1)] obtain rr w1 where
      rd: "debateRound P req (debatePrompt (prompt req) rounds rnd) ms [] w = (Inr rr, w1)"
      and rec: "debateLoop P req ms mx (rnd + 1)
                 (rounds @ [\<lparr>dr_round = rnd + 1, dr_responses = rr\<rparr>]) w1 = (Inr out, w')"
      by (elim exE conjE)
    let ?p = "debatePrompt (prompt req) rounds rnd"
    let ?f = "\<lambda>m. Complete ?p (withModel req m)"
    let ?rounds' = "rounds @ [\<lparr>dr_round = rnd + 1, dr_responses = rr\<rparr>]"
    let ?n = "length rounds"
    have len': "rnd + 1 = int (length ?rounds')" using "1.prems"(2) by simp
    note ih = "1.IH"[OF True rd[symmetric] refl rec len']
    from ih obtain new where new: "out = ?rounds' @ new" by blast
    have lenout: "int (length out) = max (rnd + 1) mx" using ih by blast
    have idx: "\<forall>i. length ?rounds' \<le> i \<and> i < length out \<longrightarrow>
         dr_round (out ! i) = int i + 1 \<and> map pr_model (dr_responses (out ! i)) = ms"
      using ih by blast
    have ev: "events w' = events w1
        @ map ProviderCalled (concat (map (debateRoundCalls req ms out) [length ?rounds'..<length out]))"
      using ih by blast
    have pin: "\<forall>i k. length ?rounds' \<le> i \<and> i < length out \<and> k < length ms \<longrightarrow>
         P (events w1
              @ map ProviderCalled (concat (map (debateRoundCalls req ms out) [length ?rounds'..<i])
                                    @ take k (debateRoundCalls req ms out i)))
           (debateRoundCalls req ms out i ! k)
         = Inr (pr_response (dr_responses (out ! i) ! k))"
      using ih by blast
    from debateRound_events[OF rd] have rrm: "map pr_model rr = ms"
      and ev1: "events w1 = events w @ map (\<lambda>m. ProviderCalled (?f m)) ms"
      and pin1: "\<forall>k<length ms.
           P (events w @ map (\<lambda>m. ProviderCalled (?f m)) (take k ms))
             (?f (ms ! k)) = Inr (pr_response (rr ! k))"
      by auto
    have a: "\<exists>new. out = rounds @ new" using new by simp
    have b: "int (length out) = max rnd mx" using lenout True by simp
    have here: "out ! ?n = \<lparr>dr_round = rnd + 1, dr_responses = rr\<rparr>"
      using new by (simp add: nth_append)
    have c: "\<forall>i. ?n \<le> i \<and> i < length out \<longrightarrow>
         dr_round (out ! i) = int i + 1 \<and> map pr_model (dr_responses (out ! i)) = ms"
    proof (intro allI impI)
      fix i assume i: "?n \<le> i \<and> i < length out"
      show "dr_round (out ! i) = int i + 1 \<and> map pr_model (dr_responses (out ! i)) = ms"
      proof (cases "i = ?n")
        case True
        then show ?thesis using here rrm "1.prems"(2) by simp
      next
        case False
        with i have "length ?rounds' \<le> i \<and> i < length out" by simp
        with idx show ?thesis by blast
      qed
    qed
    have lt: "?n < length out" using new by simp
    have tk: "take ?n out = rounds" using new by simp
    have first: "debateRoundCalls req ms out ?n = map ?f ms"
      using debateRoundCalls_here[OF tk, of req ms] "1.prems"(2) by simp
    have upt: "[?n..<length out] = ?n # [length ?rounds'..<length out]"
      using lt by (simp add: upt_conv_Cons)
    have d: "events w' = events w
        @ map ProviderCalled (concat (map (debateRoundCalls req ms out) [?n..<length out]))"
      unfolding ev ev1 upt by (simp add: first comp_def)
    have e: "\<forall>i k. ?n \<le> i \<and> i < length out \<and> k < length ms \<longrightarrow>
         P (events w
              @ map ProviderCalled (concat (map (debateRoundCalls req ms out) [?n..<i])
                                    @ take k (debateRoundCalls req ms out i)))
           (debateRoundCalls req ms out i ! k)
         = Inr (pr_response (dr_responses (out ! i) ! k))"
    proof (intro allI impI)
      fix i k assume ik: "?n \<le> i \<and> i < length out \<and> k < length ms"
      show "P (events w
              @ map ProviderCalled (concat (map (debateRoundCalls req ms out) [?n..<i])
                                    @ take k (debateRoundCalls req ms out i)))
           (debateRoundCalls req ms out i ! k)
         = Inr (pr_response (dr_responses (out ! i) ! k))"
      proof (cases "i = ?n")
        case True
        from ik pin1 have "P (events w @ map (\<lambda>m. ProviderCalled (?f m)) (take k ms))
             (?f (ms ! k)) = Inr (pr_response (rr ! k))" by blast
        then show ?thesis using ik
          by (simp add: True first here take_map comp_def)
      next
        case False
        with ik have i': "length ?rounds' \<le> i \<and> i < length out \<and> k < length ms" by simp
        have upt': "[?n..<i] = ?n # [length ?rounds'..<i]"
          using i' by (simp add: upt_conv_Cons)
        from pin i' have "P (events w1
              @ map ProviderCalled (concat (map (debateRoundCalls req ms out) [length ?rounds'..<i])
                                    @ take k (debateRoundCalls req ms out i)))
           (debateRoundCalls req ms out i ! k)
         = Inr (pr_response (dr_responses (out ! i) ! k))" by blast
        then show ?thesis unfolding ev1 upt' by (simp add: first comp_def)
      qed
    qed
    from a b c d e show ?thesis by blast
  qed
qed

lemma sublist_inside: "sublist xs ys \<Longrightarrow> sublist xs (ps @ ys @ ss)"
proof -
  assume "sublist xs ys"
  then obtain a b where "ys = a @ xs @ b" by (auto simp: sublist_def)
  then have "ps @ ys @ ss = (ps @ a) @ xs @ (b @ ss)" by simp
  then show ?thesis unfolding sublist_def by blast
qed

lemma sublist_join: "x \<in> set xs \<Longrightarrow> sublist x (join sep xs)"
proof (induction sep xs rule: join.induct)
  case (1 sep)
  then show ?case by simp
next
  case (2 sep y)
  then show ?case by simp
next
  case (3 sep y z zs)
  show ?case
  proof (cases "x = y")
    case True
    then show ?thesis by simp
  next
    case False
    with 3 have "sublist x (join sep (z # zs))" by simp
    from sublist_inside[OF this, of "y @ sep" "[]"] show ?thesis by simp
  qed
qed

lemma response_in_roundBlock:
  assumes "x \<in> set (dr_responses rd)"
  shows "sublist (pr_response x) (roundBlock rd)"
proof -
  let ?line = "\<lambda>x. pr_model x @ '': '' @ pr_response x"
  have "?line x \<in> set (map ?line (dr_responses rd))" using assms by simp
  then have "sublist (?line x) (join ''\<newline>\<newline>'' (map ?line (dr_responses rd)))"
    by (rule sublist_join)
  moreover have "sublist (pr_response x) (?line x)"
    using sublist_inside[of "pr_response x" "pr_response x" "pr_model x @ '': ''" "[]"] by simp
  ultimately have "sublist (pr_response x) (join ''\<newline>\<newline>'' (map ?line (dr_responses rd)))"
    by (rule sublist_order.order.trans[rotated])
  from sublist_inside[OF this, of "''Round '' @ showInt (dr_round rd) @ '':\<newline>''" "[]"]
  show ?thesis by (simp add: roundBlock_def)
qed

lemma response_in_formatDebateHistory:
  assumes "rd \<in> set rounds" and "x \<in> set (dr_responses rd)"
  shows "sublist (pr_response x) (formatDebateHistory rounds)"
proof -
  have "roundBlock rd \<in> set (map roundBlock rounds)" using assms(1) by simp
  then have "sublist (roundBlock rd) (formatDebateHistory rounds)"
    unfolding formatDebateHistory_def by (rule sublist_join)
  with response_in_roundBlock[OF assms(2)] show ?thesis
    by (rule sublist_order.order.trans)
qed

lemma response_in_debatePrompt:
  assumes "rd \<in> set rounds" and "x \<in> set (dr_responses rd)" and "rnd \<noteq> 0"
  shows "sublist (pr_response x) (debatePrompt p rounds rnd)"
proof -
  from sublist_inside[OF response_in_formatDebateHistory[OF assms(1,2)],
      of "p @ ''\<newline>\<newline>Previous responses in the debate:\<newline>''"
         "''\<newline>\<newline>Provide your perspective, counter-arguments, or refinements:''"]
  show ?thesis using assms(3) by (simp add: debatePrompt_def)
qed

lemma debatePrompt_first: "debatePrompt p rounds 0 = p"
  by (simp add: debatePrompt_def)

lemma debateRound_succeeds:
  "\<forall>evs c. \<not> isl (P evs c) \<Longrightarrow> \<exists>rr w'. debateRound P req p ms acc w = (Inr rr, w')"
proof (induction ms arbitrary: acc w)
  case Nil
  then show ?case by simp
next
  case (Cons m ms)
  from Cons.prems obtain response where "P (events w) (Complete p (withModel req m)) = Inr response"
    by (metis isl_def sum.exhaust)
  then have "debateRound P req p (m # ms) acc w
     = debateRound P req p ms (acc @ [\<lparr>pr_model = m, pr_response = response\<rparr>])
          (w\<lparr>events := events w @ [ProviderCalled (Complete p (withModel req m))]\<rparr>)"
    by (simp add: provider_complete_eq asProviderError_def)
  with Cons.IH[OF Cons.prems] show ?case by simp
qed

lemma debateLoop_succeeds:
  "\<forall>evs c. \<not> isl (P evs c) \<Longrightarrow> \<exists>out w'. debateLoop P req ms mx rnd rounds w = (Inr out, w')"
proof (induction P req ms mx rnd rounds w rule: debateLoop.induct)
  case (1 P req ms mx rnd rounds w)
  show ?case
  proof (cases "rnd < mx")
    case False
    then show ?thesis by (simp add: debateLoop_unfold_stop)
  next
    case True
    from debateRound_succeeds[OF "1.prems"] obtain rr w1 where
      rd: "debateRound P req (debatePrompt (prompt req) rounds rnd) ms [] w = (Inr rr, w1)"
      by blast
    have "debateLoop P req ms mx rnd rounds w
       = debateLoop P req ms mx (rnd + 1) (rounds @ [\<lparr>dr_round = rnd + 1, dr_responses = rr\<rparr>]) w1"
      using True rd by (subst debateLoop.simps) simp
    with "1.IH"[OF True rd[symmetric] refl "1.prems"] show ?thesis by simp
  qed
qed

lemma providerCalls_map [simp]: "providerCalls (map ProviderCalled cs) = cs"
  by (induction cs) simp_all

lemma orchestrate_debate:
  "strategy req = Debate \<Longrightarrow>
   orchestrate P jp req w =
     (case debateMode P req (selectModels req) (addUserMessage req w) of
        (Inl e, w2) \<Rightarrow> (Inl e, w2)
      | (Inr result, w2) \<Rightarrow>
          (Inr (result\<lparr>res_conversationId := Some (getSummary (store w2))\<rparr>), w2))"
  by (simp add: orchestrate_def dispatch_def Let_def Debate_def Sequential_def Parallel_def)

lemma debateMode_Inr:
  assumes "debateMode P req ms w = (Inr r, w')"
  shows "\<exists>rounds w1 conclusion.
     debateLoop P req ms (debateMaxRounds req) 0 [] w = (Inr rounds, w1)
     \<and> P (events w1) (Complete (conclusionPrompt rounds (prompt req)) (fixedModel ''openai/gpt-4o''))
         = Inr conclusion
     \<and> res_rounds r = Some rounds
     \<and> res_conclusion r = Some conclusion
     \<and> providerCalls (events w') = providerCalls (events w1)
         @ [Complete (conclusionPrompt rounds (prompt req)) (fixedModel ''openai/gpt-4o'')]"
proof -
  obtain r1 w1 where l: "debateLoop P req ms (debateMaxRounds req) 0 [] w = (r1, w1)"
    by fastforce
  show ?thesis
  proof (cases r1)
    case (Inl e)
    with assms l show ?thesis by (simp add: debateMode_def)
  next
    case (Inr rounds)
    show ?thesis
    proof (cases "P (events w1) (Complete (conclusionPrompt rounds (prompt req)) (fixedModel ''openai/gpt-4o''))")
      case (Inl e)
      with assms l Inr show ?thesis
        by (simp add: debateMode_def generateDebateConclusion_def provider_complete_eq
            asProviderError_def)
    next
      case c: (Inr conclusion)
      with assms l Inr have "res_rounds r = Some rounds"
        and "res_conclusion r = Some conclusion"
        and "providerCalls (events w') = providerCalls (events w1)
         @ [Complete (conclusionPrompt rounds (prompt req)) (fixedModel ''openai/gpt-4o'')]"
        by (auto simp: debateMode_def generateDebateConclusion_def provider_complete_eq
            asProviderError_def Let_def contextManager_addMessage_def providerCalls_append)
      with l Inr c show ?thesis by blast
    qed
  qed
qed

lemma debateMode_succeeds:
  assumes "\<forall>evs c. \<not> isl (P evs c)"
  shows "\<exists>r w'. debateMode P req ms w = (Inr r, w')"
proof -
  from debateLoop_succeeds[OF assms] obtain rounds w1 where
    l: "debateLoop P req ms (debateMaxRounds req) 0 [] w = (Inr rounds, w1)" by blast
  from assms obtain conclusion where
    c: "P (events w1) (Complete (conclusionPrompt rounds (prompt req)) (fixedModel ''openai/gpt-4o''))
         = Inr conclusion"
    by (metis isl_def sum.exhaust)
  show ?thesis
    using l c
    by (simp add: debateMode_def generateDebateConclusion_def provider_complete_eq
        asProviderError_def Let_def)
qed

text \<open>
  Claim C6. In the Debate strategy, with \<open>maxRounds\<close> a positive integer when it is
  specified, the result's \<open>rounds\<close> has exactly \<open>options.maxRounds\<close> entries, and 3 when
  \<open>maxRounds\<close> is unspecified; round \<open>i\<close> is numbered \<open>i + 1\<close> and has one response
  per model. The provider calls of the run are, round after round, one \<open>complete\<close> per
  model, and then the conclusion call. The calls of the first round carry the bare
  original prompt (and no message list: the history is not read), and the prompt of
  every later round has every response of every earlier round inside it. Each response
  of a round is the provider's answer to the call of its model in that round, and the
  conclusion is the provider's answer to the conclusion call. A provider that answers
  every call makes the run return a result.
\<close>

theorem debate_rounds_and_prompts:
  assumes "strategy req = Debate"
    and "case specifiedMaxRounds req of None \<Rightarrow> True | Some n \<Rightarrow> 0 < n"
  shows "(\<forall>r. fst (orchestrate P jsonParse req w) = Inr r \<longrightarrow>
          (\<exists>rounds. res_rounds r = Some rounds
            \<and> int (length rounds) = (case specifiedMaxRounds req of None \<Rightarrow> 3 | Some n \<Rightarrow> n)
            \<and> (\<forall>i<length rounds. dr_round (rounds ! i) = int i + 1
                  \<and> map pr_model (dr_responses (rounds ! i)) = selectModels req)
            \<and> providerCalls (events (snd (orchestrate P jsonParse req w)))
                = providerCalls (events w)
                  @ concat (map (debateRoundCalls req (selectModels req) rounds) [0..<length rounds])
                  @ [Complete (conclusionPrompt rounds (prompt req)) (fixedModel ''openai/gpt-4o'')]
            \<and> debateRoundCalls req (selectModels req) rounds 0
                = map (\<lambda>m. Complete (prompt req) (withModel req m)) (selectModels req)
            \<and> (\<forall>i j x. 0 < i \<and> i < length rounds \<and> j < i \<and> x \<in> set (dr_responses (rounds ! j))
                  \<longrightarrow> sublist (pr_response x) (debatePrompt (prompt req) (take i rounds) (int i)))
            \<and> (\<forall>i k. i < length rounds \<and> k < length (selectModels req) \<longrightarrow>
                  P (events (addUserMessage req w)
                       @ map ProviderCalled
                           (concat (map (debateRoundCalls req (selectModels req) rounds) [0..<i])
                            @ take k (debateRoundCalls req (selectModels req) rounds i)))
                    (debateRoundCalls req (selectModels req) rounds i ! k)
                  = Inr (pr_response (dr_responses (rounds ! i) ! k)))
            \<and> (\<exists>conclusion. res_conclusion r = Some conclusion
                  \<and> P (events (addUserMessage req w)
                         @ map ProviderCalled
                             (concat (map (debateRoundCalls req (selectModels req) rounds)
                                        [0..<length rounds])))
                      (Complete (conclusionPrompt rounds (prompt req)) (fixedModel ''openai/gpt-4o''))
                    = Inr conclusion)))
       \<and> ((\<forall>evs c. \<not> isl (P evs c)) \<longrightarrow> (\<exists>r. fst (orchestrate P jsonParse req w) = Inr r))"
proof (intro conjI allI impI)
  fix r assume res: "fst (orchestrate P jsonParse req w) = Inr r"
  let ?ms = "selectModels req"
  let ?w0 = "addUserMessage req w"
  obtain r0 w' where dm: "debateMode P req ?ms ?w0 = (r0, w')" by fastforce
  with res assms(1) obtain r1 where r1: "r0 = Inr r1"
    and r: "r = r1\<lparr>res_conversationId := Some (getSummary (store w'))\<rparr>"
    and w': "snd (orchestrate P jsonParse req w) = w'"
    by (auto simp: orchestrate_debate split: sum.splits)
  from debateMode_Inr[OF dm[unfolded r1]] obtain rounds w1 conclusion where
    loop: "debateLoop P req ?ms (debateMaxRounds req) 0 [] ?w0 = (Inr rounds, w1)"
    and cans: "P (events w1) (Complete (conclusionPrompt rounds (prompt req))
                 (fixedModel ''openai/gpt-4o'')) = Inr conclusion"
    and rr: "res_rounds r1 = Some rounds"
    and rc: "res_conclusion r1 = Some conclusion"
    and pc: "providerCalls (events w') = providerCalls (events w1)
         @ [Complete (conclusionPrompt rounds (prompt req)) (fixedModel ''openai/gpt-4o'')]"
    by blast
  from debateLoop_rounds[OF loop] have
    len: "int (length rounds) = max 0 (debateMaxRounds req)"
    and idx: "\<forall>i. i < length rounds \<longrightarrow>
         dr_round (rounds ! i) = int i + 1 \<and> map pr_model (dr_responses (rounds ! i)) = ?ms"
    and ev: "events w1 = events ?w0
        @ map ProviderCalled (concat (map (debateRoundCalls req ?ms rounds) [0..<length rounds]))"
    and pin: "\<forall>i k. i < length rounds \<and> k < length ?ms \<longrightarrow>
         P (events ?w0
              @ map ProviderCalled (concat (map (debateRoundCalls req ?ms rounds) [0..<i])
                                    @ take k (debateRoundCalls req ?ms rounds i)))
           (debateRoundCalls req ?ms rounds i ! k)
         = Inr (pr_response (dr_responses (rounds ! i) ! k))"
    by simp_all
  have mx: "max 0 (debateMaxRounds req) = (case specifiedMaxRounds req of None \<Rightarrow> 3 | Some n \<Rightarrow> n)"
    using assms(2) by (simp add: debateMaxRounds_def split: option.splits)
  have pc0: "providerCalls (events ?w0) = providerCalls (events w)"
    by (simp add: addUserMessage_def contextManager_addMessage_def providerCalls_append)
  have 1: "res_rounds r = Some rounds" using rr r by simp
  have 2: "int (length rounds) = (case specifiedMaxRounds req of None \<Rightarrow> 3 | Some n \<Rightarrow> n)"
    using len mx by simp
  have 3: "\<forall>i<length rounds. dr_round (rounds ! i) = int i + 1
                  \<and> map pr_model (dr_responses (rounds ! i)) = ?ms"
    using idx by blast
  have 4: "providerCalls (events (snd (orchestrate P jsonParse req w)))
                = providerCalls (events w)
                  @ concat (map (debateRoundCalls req ?ms rounds) [0..<length rounds])
                  @ [Complete (conclusionPrompt rounds (prompt req)) (fixedModel ''openai/gpt-4o'')]"
    unfolding w' pc ev by (simp add: providerCalls_append pc0)
  have 5: "debateRoundCalls req ?ms rounds 0
                = map (\<lambda>m. Complete (prompt req) (withModel req m)) ?ms"
    by (simp add: debateRoundCalls_def debatePrompt_first)
  have 6: "\<forall>i j x. 0 < i \<and> i < length rounds \<and> j < i \<and> x \<in> set (dr_responses (rounds ! j))
                  \<longrightarrow> sublist (pr_response x) (debatePrompt (prompt req) (take i rounds) (int i))"
  proof (intro allI impI)
    fix i j x
    assume a: "0 < i \<and> i < length rounds \<and> j < i \<and> x \<in> set (dr_responses (rounds ! j))"
    then have "j < length (take i rounds)" by simp
    then have "take i rounds ! j \<in> set (take i rounds)" by (rule nth_mem)
    moreover have "take i rounds ! j = rounds ! j" using a by simp
    ultimately have "rounds ! j \<in> set (take i rounds)" by simp
    moreover have "int i \<noteq> 0" using a by simp
    ultimately show "sublist (pr_response x) (debatePrompt (prompt req) (take i rounds) (int i))"
      using a by (intro response_in_debatePrompt[of "rounds ! j"]) simp_all
  qed
  have 7: "\<exists>conclusion. res_conclusion r = Some conclusion
                  \<and> P (events ?w0
                         @ map ProviderCalled
                             (concat (map (debateRoundCalls req ?ms rounds) [0..<length rounds])))
                      (Complete (conclusionPrompt rounds (prompt req)) (fixedModel ''openai/gpt-4o''))
                    = Inr conclusion"
    using rc r cans unfolding ev by simp
  from 1 2 3 4 5 6 pin 7
  show "\<exists>rounds. res_rounds r = Some rounds
            \<and> int (length rounds) = (case specifiedMaxRounds req of None \<Rightarrow> 3 | Some n \<Rightarrow> n)
            \<and> (\<forall>i<length rounds. dr_round (rounds ! i) = int i + 1
                  \<and> map pr_model (dr_responses (rounds ! i)) = selectModels req)
            \<and> providerCalls (events (snd (orchestrate P jsonParse req w)))
                = providerCalls (events w)
                  @ concat (map (debateRoundCalls req (selectModels req) rounds) [0..<length rounds])
                  @ [Complete (conclusionPrompt rounds (prompt req)) (fixedModel ''openai/gpt-4o'')]
            \<and> debateRoundCalls req (selectModels req) rounds 0
                = map (\<lambda>m. Complete (prompt req) (withModel req m)) (selectModels req)
            \<and> (\<forall>i j x. 0 < i \<and> i < length rounds \<and> j < i \<and> x \<in> set (dr_responses (rounds ! j))
                  \<longrightarrow> sublist (pr_response x) (debatePrompt (prompt req) (take i rounds) (int i)))
            \<and> (\<forall>i k. i < length rounds \<and> k < length (selectModels req) \<longrightarrow>
                  P (events (addUserMessage req w)
                       @ map ProviderCalled
                           (concat (map (debateRoundCalls req (selectModels req) rounds) [0..<i])
                            @ take k (debateRoundCalls req (selectModels req) rounds i)))
                    (debateRoundCalls req (selectModels req) rounds i ! k)
                  = Inr (pr_response (dr_responses (rounds ! i) ! k)))
            \<and> (\<exists>conclusion. res_conclusion r = Some conclusion
                  \<and> P (events (addUserMessage req w)
                         @ map ProviderCalled
                             (concat (map (debateRoundCalls req (selectModels req) rounds)
                                        [0..<length rounds])))
                      (Complete (conclusionPrompt rounds (prompt req)) (fixedModel ''openai/gpt-4o''))
                    = Inr conclusion)"
    by (intro exI[of _ rounds] conjI)
next
  assume "\<forall>evs c. \<not> isl (P evs c)"
  from debateMode_succeeds[OF this, of req "selectModels req" "addUserMessage req w"]
  obtain r w' where "debateMode P req (selectModels req) (addUserMessage req w) = (Inr r, w')"
    by blast
  then show "\<exists>r. fst (orchestrate P jsonParse req w) = Inr r"
    using assms(1) by (simp add: orchestrate_debate)
qed

theorem debate_rounds_and_prompts_witness:
  "strategy debateRequest = Debate
   \<and> specifiedMaxRounds debateRequest = Some 2
   \<and> fst (orchestrate replyingProvider rejectingParse debateRequest emptyWorld)
       = Inr \<lparr>res_strategy = ''debate'', res_models = [''A'', ''B''], res_responses = None,
              res_rounds = Some
                [\<lparr>dr_round = 1, dr_responses =
                    [\<lparr>pr_model = ''A'', pr_response = ''reply of A''\<rparr>,
                     \<lparr>pr_model = ''B'', pr_response = ''reply of B''\<rparr>]\<rparr>,
                 \<lparr>dr_round = 2, dr_responses =
                    [\<lparr>pr_model = ''A'', pr_response = ''reply of A''\<rparr>,
                     \<lparr>pr_model = ''B'', pr_response = ''reply of B''\<rparr>]\<rparr>],
              res_synthesis = None, res_consensus = None,
              res_conclusion = Some ''reply of openai/gpt-4o'',
              res_conversationId = Some ''c1''\<rparr>
   \<and> int (length
        [\<lparr>dr_round = 1, dr_responses =
            [\<lparr>pr_model = ''A'', pr_response = ''reply of A''\<rparr>,
             \<lparr>pr_model = ''B'', pr_response = ''reply of B''\<rparr>]\<rparr>,
         \<lparr>dr_round = 2, dr_responses =
            [\<lparr>pr_model = ''A'', pr_response = ''reply of A''\<rparr>,
             \<lparr>pr_model = ''B'', pr_response = ''reply of B''\<rparr>]\<rparr>]) = 2"
proof -
  have h1: "strategy debateRequest = Debate"
    by (simp add: debateRequest_def Debate_def)
  have s: "specifiedMaxRounds debateRequest = Some 2"
    by (simp add: debateRequest_def specifiedMaxRounds_def)
  have h2: "case specifiedMaxRounds debateRequest of None \<Rightarrow> True | Some n \<Rightarrow> 0 < n"
    by (simp add: s)
  have h3: "fst (orchestrate replyingProvider rejectingParse debateRequest emptyWorld)
       = Inr \<lparr>res_strategy = ''debate'', res_models = [''A'', ''B''], res_responses = None,
              res_rounds = Some
                [\<lparr>dr_round = 1, dr_responses =
                    [\<lparr>pr_model = ''A'', pr_response = ''reply of A''\<rparr>,
                     \<lparr>pr_model = ''B'', pr_response = ''reply of B''\<rparr>]\<rparr>,
                 \<lparr>dr_round = 2, dr_responses =
                    [\<lparr>pr_model = ''A'', pr_response = ''reply of A''\<rparr>,
                     \<lparr>pr_model = ''B'', pr_response = ''reply of B''\<rparr>]\<rparr>],
              res_synthesis = None, res_consensus = None,
              res_conclusion = Some ''reply of openai/gpt-4o'',
              res_conversationId = Some ''c1''\<rparr>"
    by code_simp
  from debate_rounds_and_prompts[OF h1 h2, of replyingProvider rejectingParse emptyWorld]
  show ?thesis using h1 s h3 by simp
qed

end
